theory Spec2Isabelle
  imports Complex_Main "HOL-Library.AList"
begin

section \<open>Year rollover of a GnuCash book: data model\<close>

text \<open>
  The program \<^verbatim>\<open>create_new_year_including_opening_transactions.py\<close> works on GnuCash
  books through the GnuCash Python bindings. The bindings are not part of the program; the
  part of them that the program calls is modelled here as plain data and functions on it.

  \<^item> An account is a node of a tree; the program holds accounts by reference, and since no
    account is ever removed or moved a reference is the position of the node in the tree
    (the list of child indices from the root).
  \<^item> Amounts are GnuCash numerics, that is rationals.
  \<^item> A transaction owns its splits; a split that belongs to no transaction is kept in the
    book's list of orphan splits.
  \<^item> The comparisons of the program, \<^verbatim>\<open>balance != 0\<close> and
    \<^verbatim>\<open>asset_commodity == equity_commodity\<close>, compare the values the objects stand
    for.
\<close>

datatype acct_type =
    ACCT_TYPE_NONE | ACCT_TYPE_BANK | ACCT_TYPE_CASH | ACCT_TYPE_CREDIT | ACCT_TYPE_ASSET
  | ACCT_TYPE_LIABILITY | ACCT_TYPE_STOCK | ACCT_TYPE_MUTUAL | ACCT_TYPE_CURRENCY
  | ACCT_TYPE_INCOME | ACCT_TYPE_EXPENSE | ACCT_TYPE_EQUITY | ACCT_TYPE_RECEIVABLE
  | ACCT_TYPE_PAYABLE | ACCT_TYPE_ROOT | ACCT_TYPE_TRADING

text \<open>A commodity is identified by its namespace and mnemonic, e.g. \<open>(''CURRENCY'', ''EUR'')\<close>.\<close>

type_synonym commodity = "string \<times> string"

datatype account =
  Account (acc_name: string) (acc_type: acct_type) (acc_placeholder: bool)
          (acc_commodity: "commodity option") (acc_children: "account list")

type_synonym acc_ref = "nat list"

record datetime =
  dt_year :: int
  dt_month :: int
  dt_day :: int

record split =
  split_account :: "acc_ref option"
  split_amount :: rat
  split_value :: rat

record transaction =
  tx_description :: string
  tx_date :: "(int \<times> int \<times> int) option"
  tx_currency :: "commodity option"
  tx_splits :: "split list"

text \<open>
  The price database is modelled by the conversion it induces
  (\<^verbatim>\<open>convert_balance_nearest_price_t64\<close>), the commodity table by the list of its
  commodities. The separator is the one the bindings use to build full account names.
\<close>

type_synonym pricedb = "rat \<Rightarrow> commodity option \<Rightarrow> commodity option \<Rightarrow> datetime \<Rightarrow> rat"

record book =
  root_account :: account
  transactions :: "(nat \<times> transaction) list"
  orphan_splits :: "split list"
  commodity_table :: "commodity list"
  price_db :: pricedb
  account_separator :: string

section \<open>Account tree\<close>

text \<open>
  Full names as \<^verbatim>\<open>get_full_name\<close> builds them: the root has the empty name, a child of
  the root its own name, any other account the full name of its parent, the separator and
  its own name.
\<close>

definition child_full_name :: "string \<Rightarrow> acc_ref \<Rightarrow> string \<Rightarrow> string \<Rightarrow> string" where
  "child_full_name sep parent_ref parent_full n =
     (if parent_ref = [] then n else parent_full @ sep @ n)"

text \<open>
  \<^verbatim>\<open>
  def walk(account):
      yield account
      for child in account.get_children():
          yield from walk(child)
  \<close>
  Each visited account is given with its reference and its full name.
\<close>

fun walk :: "string \<Rightarrow> acc_ref \<Rightarrow> string \<Rightarrow> account \<Rightarrow> (acc_ref \<times> string \<times> account) list"
  and walk_children ::
    "string \<Rightarrow> acc_ref \<Rightarrow> string \<Rightarrow> nat \<Rightarrow> account list \<Rightarrow> (acc_ref \<times> string \<times> account) list"
where
  "walk sep r fn (Account n t p c ch) =
     (r, fn, Account n t p c ch) # walk_children sep r fn 0 ch"
| "walk_children sep r fn i [] = []"
| "walk_children sep r fn i (c # cs) =
     walk sep (r @ [i]) (child_full_name sep r fn (acc_name c)) c
       @ walk_children sep r fn (Suc i) cs"

definition walk_book :: "book \<Rightarrow> (acc_ref \<times> string \<times> account) list" where
  "walk_book b = walk (account_separator b) [] [] (root_account b)"

text \<open>\<^verbatim>\<open>get_descendants\<close>: every account below the root, the root itself left out.\<close>

definition get_descendants :: "book \<Rightarrow> (acc_ref \<times> string \<times> account) list" where
  "get_descendants b = tl (walk_book b)"

fun account_at :: "account \<Rightarrow> acc_ref \<Rightarrow> account option" where
  "account_at a [] = Some a"
| "account_at a (i # r) =
     (if i < length (acc_children a) then account_at (acc_children a ! i) r else None)"

definition all_splits :: "book \<Rightarrow> split list" where
  "all_splits b = concat (map (\<lambda>(i, t). tx_splits t) (transactions b)) @ orphan_splits b"

text \<open>\<^verbatim>\<open>GetBalance\<close>: the sum of the amounts of the splits of the account.\<close>

definition GetBalance :: "book \<Rightarrow> acc_ref \<Rightarrow> rat" where
  "GetBalance b r = sum_list (map split_amount (filter (\<lambda>s. split_account s = Some r) (all_splits b)))"

section \<open>Balance extractor\<close>

definition ACCOUNT_TYPES_TO_EXCLUDE :: "acct_type list" where
  "ACCOUNT_TYPES_TO_EXCLUDE =
     [ACCT_TYPE_INCOME, ACCT_TYPE_EXPENSE, ACCT_TYPE_TRADING, ACCT_TYPE_ROOT, ACCT_TYPE_EQUITY]"

text \<open>
  \<^verbatim>\<open>
  for acc in walk(root):
      if acc.GetPlaceholder(): continue
      if acc.GetType() in ACCOUNT_TYPES_TO_EXCLUDE: continue
      balances[acc.get_full_name()] = acc.GetBalance()
  \<close>
  The dictionary is an association list in insertion order; assigning to a key that is
  present replaces its value in place, as a Python dict does (\<open>AList.update\<close>).
\<close>

fun balances_loop ::
  "book \<Rightarrow> (acc_ref \<times> string \<times> account) list \<Rightarrow> (string \<times> rat) list \<Rightarrow> (string \<times> rat) list"
where
  "balances_loop b [] balances = balances"
| "balances_loop b ((r, fn, acc) # accs) balances =
     (if acc_placeholder acc then balances_loop b accs balances
      else if acc_type acc \<in> set ACCOUNT_TYPES_TO_EXCLUDE then balances_loop b accs balances
      else balances_loop b accs (AList.update fn (GetBalance b r) balances))"

definition get_account_balances :: "book \<Rightarrow> (string \<times> rat) list" where
  "get_account_balances b = balances_loop b (walk_book b) []"

section \<open>Files, sessions and errors\<close>

text \<open>
  The world outside the program: the files on disk (each holding a book), the sessions
  opened so far, each with the flag whether it has been ended, and the warnings logged.
  A session object of the program holds the index of its entry, its path and the book in
  memory.
\<close>

datatype error =
  FileExistsError | FileNotFoundError | KeyError string | TypeError | GnuCashBackendException

datatype SessionOpenMode = SESSION_NORMAL_OPEN | SESSION_READ_ONLY

record session_info =
  si_path :: string
  si_mode :: SessionOpenMode
  si_ended :: bool

record session =
  sess_id :: nat
  sess_path :: string
  sess_book :: book

record world =
  files :: "string \<rightharpoonup> book"
  sessions :: "session_info list"
  warnings :: "string list"

text \<open>\<^verbatim>\<open>shutil.copyfile(src, dst)\<close> raises when the source does not exist.\<close>

definition copyfile :: "string \<Rightarrow> string \<Rightarrow> world \<Rightarrow> (error + unit) \<times> world" where
  "copyfile src dst w =
     (case files w src of
        None \<Rightarrow> (Inl FileNotFoundError, w)
      | Some content \<Rightarrow> (Inr (), w\<lparr>files := (files w)(dst \<mapsto> content)\<rparr>))"

text \<open>\<^verbatim>\<open>gnucash.Session(path, mode)\<close> loads the book of an existing file.\<close>

definition Session :: "string \<Rightarrow> SessionOpenMode \<Rightarrow> world \<Rightarrow> (error + session) \<times> world" where
  "Session path mode w =
     (case files w path of
        None \<Rightarrow> (Inl GnuCashBackendException, w)
      | Some b \<Rightarrow>
          (Inr \<lparr>sess_id = length (sessions w), sess_path = path, sess_book = b\<rparr>,
           w\<lparr>sessions := sessions w @ [\<lparr>si_path = path, si_mode = mode, si_ended = False\<rparr>]\<rparr>))"

definition save :: "session \<Rightarrow> world \<Rightarrow> world" where
  "save s w = w\<lparr>files := (files w)(sess_path s \<mapsto> sess_book s)\<rparr>"

definition session_end :: "session \<Rightarrow> world \<Rightarrow> world" where
  "session_end s w =
     w\<lparr>sessions := (sessions w)[sess_id s := (sessions w ! sess_id s)\<lparr>si_ended := True\<rparr>]\<rparr>"

section \<open>Year rollover preparer\<close>

text \<open>
  A split handle as \<^verbatim>\<open>GetSplitList\<close> returns it: the split at a position of a
  transaction's split list, or an orphan split. \<^verbatim>\<open>split.parent\<close> is read when the loop
  reaches the split: it is the transaction if that is still in the book, and nothing for an
  orphan split and for a split whose transaction has been destroyed in the meantime.
\<close>

datatype split_ref = TxSplit nat nat | OrphanSplit nat

definition splits_in :: "acc_ref \<Rightarrow> split list \<Rightarrow> nat list" where
  "splits_in r ss = filter (\<lambda>k. split_account (ss ! k) = Some r) [0..<length ss]"

definition GetSplitList :: "book \<Rightarrow> acc_ref \<Rightarrow> split_ref list" where
  "GetSplitList b r =
     concat (map (\<lambda>(i, t). map (TxSplit i) (splits_in r (tx_splits t))) (transactions b))
       @ map OrphanSplit (splits_in r (orphan_splits b))"

fun split_parent :: "book \<Rightarrow> split_ref \<Rightarrow> nat option" where
  "split_parent b (TxSplit i k) = (if i \<in> set (map fst (transactions b)) then Some i else None)"
| "split_parent b (OrphanSplit k) = None"

text \<open>\<^verbatim>\<open>transaction.Destroy()\<close> removes the transaction together with its splits.\<close>

definition Destroy :: "nat \<Rightarrow> book \<Rightarrow> book" where
  "Destroy i b = b\<lparr>transactions := filter (\<lambda>(j, t). j \<noteq> i) (transactions b)\<rparr>"

definition no_parent_warning :: "string \<Rightarrow> string" where
  "no_parent_warning fn = ''Split without parent transaction found in account '' @ fn @ ''.''"

text \<open>
  \<^verbatim>\<open>
  for split in splits:
      transaction = split.parent
      if transaction == None:
          logger.warning(...)
          continue
      transaction.Destroy()
  \<close>
\<close>

fun purge_splits :: "string \<Rightarrow> split_ref list \<Rightarrow> book \<times> string list \<Rightarrow> book \<times> string list" where
  "purge_splits fn [] (b, ws) = (b, ws)"
| "purge_splits fn (s # ss) (b, ws) =
     (case split_parent b s of
        None \<Rightarrow> purge_splits fn ss (b, ws @ [no_parent_warning fn])
      | Some transaction \<Rightarrow> purge_splits fn ss (Destroy transaction b, ws))"

text \<open>
  \<^verbatim>\<open>
  for account in accounts:
      splits = account.GetSplitList()
      for split in splits: ...
  \<close>
\<close>

fun purge_accounts ::
  "(acc_ref \<times> string \<times> account) list \<Rightarrow> book \<times> string list \<Rightarrow> book \<times> string list"
where
  "purge_accounts [] st = st"
| "purge_accounts ((r, fn, a) # accounts) (b, ws) =
     purge_accounts accounts (purge_splits fn (GetSplitList b r) (b, ws))"

definition prepare_new_year_file :: "string \<Rightarrow> string \<Rightarrow> world \<Rightarrow> (error + session) \<times> world" where
  "prepare_new_year_file previous_file new_file w =
     (if new_file \<in> dom (files w) then (Inl FileExistsError, w)
      else case copyfile previous_file new_file w of
        (Inl e, w1) \<Rightarrow> (Inl e, w1)
      | (Inr u, w1) \<Rightarrow>
          (case Session new_file SESSION_NORMAL_OPEN w1 of
             (Inl e, w2) \<Rightarrow> (Inl e, w2)
           | (Inr session_new, w2) \<Rightarrow>
               (let book_new = sess_book session_new;
                    accounts = get_descendants book_new;
                    (book_new, ws) = purge_accounts accounts (book_new, [])
                in (Inr (session_new\<lparr>sess_book := book_new\<rparr>),
                    w2\<lparr>warnings := warnings w2 @ ws\<rparr>))))"

section \<open>Opening transaction synthesizer\<close>

text \<open>
  The configuration is the object read from the JSON file: a dictionary whose values, as
  far as the program looks at them, are strings or not.
\<close>

datatype json = JString string | JNumber int | JBool bool

text \<open>\<^verbatim>\<open>lookup_by_full_name\<close>: the first account below the root with that full name.\<close>

definition lookup_by_full_name :: "book \<Rightarrow> string \<Rightarrow> acc_ref option" where
  "lookup_by_full_name b n =
     map_option fst (find (\<lambda>(r, fn, a). fn = n) (get_descendants b))"

text \<open>\<^verbatim>\<open>get_table().lookup(namespace, mnemonic)\<close>\<close>

definition lookup :: "commodity list \<Rightarrow> string \<Rightarrow> string \<Rightarrow> commodity option" where
  "lookup table namespace mnemonic = find (\<lambda>c. c = (namespace, mnemonic)) table"

text \<open>A new account as \<^verbatim>\<open>gnucash.Account(book)\<close> makes it, and its setters.\<close>

definition new_Account :: account where
  "new_Account = Account [] ACCT_TYPE_NONE False None []"

fun SetName :: "string \<Rightarrow> account \<Rightarrow> account" where
  "SetName n' (Account n t p c ch) = Account n' t p c ch"

fun SetType :: "acct_type \<Rightarrow> account \<Rightarrow> account" where
  "SetType t' (Account n t p c ch) = Account n t' p c ch"

fun SetPlaceholder :: "bool \<Rightarrow> account \<Rightarrow> account" where
  "SetPlaceholder p' (Account n t p c ch) = Account n t p' c ch"

fun SetCommodity :: "commodity option \<Rightarrow> account \<Rightarrow> account" where
  "SetCommodity c' (Account n t p c ch) = Account n t p c' ch"

text \<open>\<^verbatim>\<open>parent.append_child(account)\<close>: the new account becomes the last child.\<close>

fun append_child_at :: "acc_ref \<Rightarrow> account \<Rightarrow> account \<Rightarrow> account" where
  "append_child_at [] new (Account n t p c ch) = Account n t p c (ch @ [new])"
| "append_child_at (i # r) new (Account n t p c ch) =
     Account n t p c (if i < length ch then ch[i := append_child_at r new (ch ! i)] else ch)"

definition append_child :: "acc_ref \<Rightarrow> account \<Rightarrow> book \<Rightarrow> acc_ref \<times> book" where
  "append_child parent new b =
     (parent @ [case account_at (root_account b) parent of
                  None \<Rightarrow> 0 | Some a \<Rightarrow> length (acc_children a)],
      b\<lparr>root_account := append_child_at parent new (root_account b)\<rparr>)"

definition GetCommodity :: "book \<Rightarrow> acc_ref option \<Rightarrow> commodity option" where
  "GetCommodity b account =
     (case account of
        None \<Rightarrow> None
      | Some r \<Rightarrow> (case account_at (root_account b) r of
                    None \<Rightarrow> None | Some a \<Rightarrow> acc_commodity a))"

text \<open>
  A new transaction and a new split. The program builds the transaction and its two
  splits between \<^verbatim>\<open>BeginEdit\<close> and \<^verbatim>\<open>CommitEdit\<close>; they are local values until the
  commit puts the transaction, with the splits whose parent it is, into the book under a
  fresh identifier.
\<close>

definition new_Transaction :: transaction where
  "new_Transaction =
     \<lparr>tx_description = [], tx_date = None, tx_currency = None, tx_splits = []\<rparr>"

definition new_Split :: split where
  "new_Split = \<lparr>split_account = None, split_amount = 0, split_value = 0\<rparr>"

definition fresh_id :: "book \<Rightarrow> nat" where
  "fresh_id b = Suc (fold max (map fst (transactions b)) 0)"

definition CommitEdit :: "transaction \<Rightarrow> split list \<Rightarrow> book \<Rightarrow> book" where
  "CommitEdit transaction splits b =
     b\<lparr>transactions := transactions b @ [(fresh_id b, transaction\<lparr>tx_splits := splits\<rparr>)]\<rparr>"

text \<open>The body of the loop of \<^verbatim>\<open>main\<close> for an entry with a nonzero balance.\<close>

definition opening_transaction ::
  "acc_ref \<Rightarrow> commodity option \<Rightarrow> datetime \<Rightarrow> json \<Rightarrow> string \<Rightarrow> rat \<Rightarrow> book \<Rightarrow> error + book"
where
  "opening_transaction equity_account transaction_currency opening_date
       opening_transaction_text account_name balance book_new =
     (let (account, book_new) =
            (case lookup_by_full_name book_new account_name of
               Some account \<Rightarrow> (account, book_new)
             | None \<Rightarrow> append_child [] (SetName account_name new_Account) book_new);
          transaction = new_Transaction;
          split_asset = new_Split\<lparr>split_account := Some account\<rparr>;
          split_equity = new_Split\<lparr>split_account := Some equity_account\<rparr>;
          asset_commodity = GetCommodity book_new (split_account split_asset);
          equity_commodity = GetCommodity book_new (split_account split_equity);
          equity_value =
            (if asset_commodity = equity_commodity then balance
             else price_db book_new balance asset_commodity equity_commodity opening_date)
      in case opening_transaction_text of
           JString text \<Rightarrow>
             (let transaction = transaction\<lparr>tx_description := text\<rparr>;
                  transaction = transaction\<lparr>tx_date :=
                    Some (dt_day opening_date, dt_month opening_date, dt_year opening_date)\<rparr>;
                  split_asset = split_asset\<lparr>split_amount := balance\<rparr>;
                  split_asset = split_asset\<lparr>split_value := equity_value\<rparr>;
                  split_equity = split_equity\<lparr>split_amount := - equity_value\<rparr>;
                  split_equity = split_equity\<lparr>split_value := - equity_value\<rparr>;
                  transaction = transaction\<lparr>tx_currency := transaction_currency\<rparr>
              in Inr (CommitEdit transaction [split_asset, split_equity] book_new))
         | _ \<Rightarrow> Inl TypeError)"

text \<open>
  \<^verbatim>\<open>
  for account_name, balance in account_balances.items():
      if balance != 0: ...
  \<close>
\<close>

fun opening_loop ::
  "acc_ref \<Rightarrow> commodity option \<Rightarrow> datetime \<Rightarrow> json \<Rightarrow> (string \<times> rat) list \<Rightarrow> book
     \<Rightarrow> error + book"
where
  "opening_loop equity_account transaction_currency opening_date text [] book_new =
     Inr book_new"
| "opening_loop equity_account transaction_currency opening_date text
       ((account_name, balance) # rest) book_new =
     (if balance \<noteq> 0 then
        (case opening_transaction equity_account transaction_currency opening_date text
                account_name balance book_new of
           Inl e \<Rightarrow> Inl e
         | Inr book_new \<Rightarrow>
             opening_loop equity_account transaction_currency opening_date text rest book_new)
      else opening_loop equity_account transaction_currency opening_date text rest book_new)"

text \<open>
  Lines 115 to 141 of \<^verbatim>\<open>main\<close>: the transaction currency, and the two equity accounts,
  looked up and created only when the lookup finds nothing. A configuration value that
  is not a string raises a type error where it is first used as one.
\<close>

definition equity_accounts ::
  "json \<Rightarrow> json \<Rightarrow> json \<Rightarrow> book \<Rightarrow> error + (commodity option \<times> acc_ref \<times> acc_ref \<times> book)"
where
  "equity_accounts equity_name equity_opening_name currency book_new =
     (case currency of
        JString currency \<Rightarrow>
          (let transaction_currency = lookup (commodity_table book_new) ''CURRENCY'' currency
           in case equity_name of
                JString equity_name \<Rightarrow>
                  (let (equity_placeholder_account, book_new) =
                         (case lookup_by_full_name book_new equity_name of
                            Some account \<Rightarrow> (account, book_new)
                          | None \<Rightarrow>
                              append_child []
                                (SetPlaceholder True (SetType ACCT_TYPE_EQUITY
                                   (SetName equity_name new_Account)))
                                book_new)
                   in case equity_opening_name of
                        JString equity_opening_name \<Rightarrow>
                          (let equity_opening_full_name =
                                 equity_name @ ''.'' @ equity_opening_name;
                               (equity_account, book_new) =
                                 (case lookup_by_full_name book_new equity_opening_full_name of
                                    Some account \<Rightarrow> (account, book_new)
                                  | None \<Rightarrow>
                                      append_child equity_placeholder_account
                                        (SetCommodity transaction_currency
                                           (SetType ACCT_TYPE_EQUITY
                                              (SetName equity_opening_name new_Account)))
                                        book_new)
                           in Inr (transaction_currency, equity_placeholder_account,
                                   equity_account, book_new))
                      | _ \<Rightarrow> Inl TypeError)
              | _ \<Rightarrow> Inl TypeError)
      | _ \<Rightarrow> Inl TypeError)"

text \<open>Lines 112 to 181 of \<^verbatim>\<open>main\<close>: everything done to the new book.\<close>

definition synthesize ::
  "book \<Rightarrow> (string \<times> rat) list \<Rightarrow> datetime \<Rightarrow> json \<Rightarrow> json \<Rightarrow> json \<Rightarrow> json \<Rightarrow> error + book"
where
  "synthesize book_new account_balances opening_date equity_name equity_opening_name
       opening_transaction_text currency =
     (case equity_accounts equity_name equity_opening_name currency book_new of
        Inl e \<Rightarrow> Inl e
      | Inr (transaction_currency, equity_placeholder_account, equity_account, book_new) \<Rightarrow>
          opening_loop equity_account transaction_currency opening_date
            opening_transaction_text account_balances book_new)"

section \<open>Run\<close>

definition main ::
  "string \<Rightarrow> string \<Rightarrow> datetime \<Rightarrow> (string \<rightharpoonup> json) \<Rightarrow> world \<Rightarrow> (error + unit) \<times> world"
where
  "main previous_file new_file opening_date config w =
     (case config ''equity_name'' of
        None \<Rightarrow> (Inl (KeyError ''equity_name''), w)
      | Some equity_name \<Rightarrow>
     (case config ''equity_opening_name'' of
        None \<Rightarrow> (Inl (KeyError ''equity_opening_name''), w)
      | Some equity_opening_name \<Rightarrow>
     (case config ''opening_transaction_text'' of
        None \<Rightarrow> (Inl (KeyError ''opening_transaction_text''), w)
      | Some opening_transaction_text \<Rightarrow>
     (case config ''currency'' of
        None \<Rightarrow> (Inl (KeyError ''currency''), w)
      | Some currency \<Rightarrow>
     (case prepare_new_year_file previous_file new_file w of
        (Inl e, w) \<Rightarrow> (Inl e, w)
      | (Inr session_new, w) \<Rightarrow>
     (case Session previous_file SESSION_READ_ONLY w of
        (Inl e, w) \<Rightarrow> (Inl e, w)
      | (Inr session_prev, w) \<Rightarrow>
     (let book_prev = sess_book session_prev;
          account_balances = get_account_balances book_prev
      in case synthesize (sess_book session_new) account_balances opening_date
                equity_name equity_opening_name opening_transaction_text currency of
           Inl e \<Rightarrow> (Inl e, w)
         | Inr book_new \<Rightarrow>
             (let session_new = session_new\<lparr>sess_book := book_new\<rparr>;
                  w = save session_new w;
                  w = session_end session_new w;
                  w = session_end session_prev w
              in (Inr (), w)))))))))"

section \<open>Vocabulary of the statements\<close>

text \<open>The keys that \<^verbatim>\<open>main\<close> reads from the configuration.\<close>

definition required_keys :: "string list" where
  "required_keys =
     [''equity_name'', ''equity_opening_name'', ''opening_transaction_text'', ''currency'']"

text \<open>The accounts that the extractor records.\<close>

definition recorded :: "account \<Rightarrow> bool" where
  "recorded a \<longleftrightarrow> \<not> acc_placeholder a \<and> acc_type a \<notin> set ACCOUNT_TYPES_TO_EXCLUDE"

text \<open>
  Vocabulary for the effect of the purge: the transaction a split handle belongs to, whether
  a transaction has a split in one of the given accounts, the identifiers of the
  transactions that have, the number of orphan splits in the accounts, and the book without
  the transactions that have a split in the accounts.
\<close>

fun ref_transaction :: "split_ref \<Rightarrow> nat option" where
  "ref_transaction (TxSplit i k) = Some i"
| "ref_transaction (OrphanSplit k) = None"

definition in_accounts :: "acc_ref list \<Rightarrow> transaction \<Rightarrow> bool" where
  "in_accounts refs t \<longleftrightarrow> (\<exists>s \<in> set (tx_splits t). split_account s \<in> Some ` set refs)"

definition touched :: "acc_ref list \<Rightarrow> (nat \<times> transaction) list \<Rightarrow> nat list" where
  "touched refs ts = map fst (filter (\<lambda>p. in_accounts refs (snd p)) ts)"

definition orphans_in :: "acc_ref list \<Rightarrow> book \<Rightarrow> nat" where
  "orphans_in refs b = sum_list (map (\<lambda>r. length (splits_in r (orphan_splits b))) refs)"

definition purged :: "acc_ref list \<Rightarrow> book \<Rightarrow> book" where
  "purged refs b =
     b\<lparr>transactions :=
         filter (\<lambda>p. fst p \<notin> set (touched refs (transactions b))) (transactions b)\<rparr>"

text \<open>
  Vocabulary for the effect of the synthesizer on the account tree: two accounts agree on
  name, type, placeholder flag and commodity; a tree extends another when every reference
  valid in the first is valid in the second and leads to an account with the same four
  attributes.
\<close>

definition same_attributes :: "account \<Rightarrow> account \<Rightarrow> bool" where
  "same_attributes a a' \<longleftrightarrow>
     acc_name a' = acc_name a \<and> acc_type a' = acc_type a
     \<and> acc_placeholder a' = acc_placeholder a \<and> acc_commodity a' = acc_commodity a"

definition extends :: "account \<Rightarrow> account \<Rightarrow> bool" where
  "extends tree' tree \<longleftrightarrow>
     (\<forall>r a. account_at tree r = Some a \<longrightarrow>
        (\<exists>a'. account_at tree' r = Some a' \<and> same_attributes a a'))"

text \<open>
  The account a reference leads to, together with its full name as the traversal computes
  it; the reference is followed from an account whose own reference and full name are given.
\<close>

fun locate ::
  "string \<Rightarrow> acc_ref \<Rightarrow> string \<Rightarrow> account \<Rightarrow> acc_ref \<Rightarrow> (string \<times> account) option"
where
  "locate sep p fn a [] = Some (fn, a)"
| "locate sep p fn a (i # r) =
     (if i < length (acc_children a)
      then locate sep (p @ [i]) (child_full_name sep p fn (acc_name (acc_children a ! i)))
             (acc_children a ! i) r
      else None)"

text \<open>
  The opening transaction for a balance, between a given account and the equity account, as
  the loop body builds it; the commodities are read from the accounts of the given book.
\<close>

definition opening_tx ::
  "book \<Rightarrow> datetime \<Rightarrow> acc_ref \<Rightarrow> commodity option \<Rightarrow> string \<Rightarrow> acc_ref \<Rightarrow> rat \<Rightarrow> transaction"
where
  "opening_tx b opening_date equity_account transaction_currency text account balance =
     (let asset_commodity = GetCommodity b (Some account);
          equity_commodity = GetCommodity b (Some equity_account);
          equity_value =
            (if asset_commodity = equity_commodity then balance
             else price_db b balance asset_commodity equity_commodity opening_date)
      in \<lparr>tx_description = text,
          tx_date = Some (dt_day opening_date, dt_month opening_date, dt_year opening_date),
          tx_currency = transaction_currency,
          tx_splits =
            [\<lparr>split_account = Some account, split_amount = balance,
               split_value = equity_value\<rparr>,
             \<lparr>split_account = Some equity_account, split_amount = - equity_value,
               split_value = - equity_value\<rparr>]\<rparr>)"

section \<open>Example data\<close>

text \<open>
  A small previous-year book: a placeholder \<open>Assets\<close> with a euro and a dollar account,
  an equity account with an asset account below it, and an income account. One transaction
  moves 500 from income to the checking account, one has both its splits in the cash
  account, and one split of the checking account has no transaction.
\<close>

definition EUR :: commodity where
  "EUR = (''CURRENCY'', ''EUR'')"

definition USD :: commodity where
  "USD = (''CURRENCY'', ''USD'')"

definition ex_root :: account where
  "ex_root =
     Account [] ACCT_TYPE_ROOT False None
       [Account ''Assets'' ACCT_TYPE_ASSET True (Some EUR)
          [Account ''Checking'' ACCT_TYPE_BANK False (Some EUR) [],
           Account ''Cash'' ACCT_TYPE_CASH False (Some USD) []],
        Account ''Equity'' ACCT_TYPE_EQUITY False (Some EUR)
          [Account ''Car'' ACCT_TYPE_ASSET False (Some EUR) []],
        Account ''Income'' ACCT_TYPE_INCOME False (Some EUR) []]"

definition ex_transactions :: "(nat \<times> transaction) list" where
  "ex_transactions =
     [(1, \<lparr>tx_description = ''Salary'', tx_date = Some (1, 12, 2024), tx_currency = Some EUR,
           tx_splits =
             [\<lparr>split_account = Some [0, 0], split_amount = 500, split_value = 500\<rparr>,
              \<lparr>split_account = Some [2], split_amount = - 500, split_value = - 500\<rparr>]\<rparr>),
      (2, \<lparr>tx_description = ''Correction'', tx_date = Some (2, 12, 2024),
           tx_currency = Some EUR,
           tx_splits =
             [\<lparr>split_account = Some [0, 1], split_amount = 7, split_value = 6\<rparr>,
              \<lparr>split_account = Some [0, 1], split_amount = - 7, split_value = - 6\<rparr>]\<rparr>)]"

definition ex_orphan :: split where
  "ex_orphan = \<lparr>split_account = Some [0, 0], split_amount = 1, split_value = 1\<rparr>"

definition ex_book :: book where
  "ex_book =
     \<lparr>root_account = ex_root, transactions = ex_transactions, orphan_splits = [ex_orphan],
      commodity_table = [EUR, USD], price_db = (\<lambda>x c c' d. 2 * x),
      account_separator = ''.''\<rparr>"

definition ex_date :: datetime where
  "ex_date = \<lparr>dt_year = 2025, dt_month = 1, dt_day = 1\<rparr>"

definition ex_config :: "string \<rightharpoonup> json" where
  "ex_config =
     [''equity_name'' \<mapsto> JString ''Equity'',
      ''equity_opening_name'' \<mapsto> JString ''Opening Balances'',
      ''opening_transaction_text'' \<mapsto> JString ''Opening balance'',
      ''currency'' \<mapsto> JString ''EUR'']"

definition ex_world :: world where
  "ex_world = \<lparr>files = [''2024.gnucash'' \<mapsto> ex_book], sessions = [], warnings = []\<rparr>"

text \<open>The same book and world without the orphan split.\<close>

definition ex_clean_book :: book where
  "ex_clean_book = ex_book\<lparr>orphan_splits := []\<rparr>"

definition ex_clean_world :: world where
  "ex_clean_world =
     \<lparr>files = [''2024.gnucash'' \<mapsto> ex_clean_book], sessions = [], warnings = []\<rparr>"

text \<open>
  The new-year book after the purge, a snapshot with a euro balance, a dollar balance and
  a zero balance, and the book the synthesizer makes of them: the opening-balances account
  is created below the existing \<open>Equity\<close> account, and the dollar balance is converted by
  the price database of the example, which doubles every amount.
\<close>

definition ex_new_book :: book where
  "ex_new_book = ex_book\<lparr>transactions := []\<rparr>"

definition ex_balances :: "(string \<times> rat) list" where
  "ex_balances = [(''Assets.Checking'', 501), (''Assets.Cash'', 7), (''Equity.Car'', 0)]"

definition ex_opening_book :: book where
  "ex_opening_book =
     ex_new_book\<lparr>
       root_account :=
         Account [] ACCT_TYPE_ROOT False None
           [Account ''Assets'' ACCT_TYPE_ASSET True (Some EUR)
              [Account ''Checking'' ACCT_TYPE_BANK False (Some EUR) [],
               Account ''Cash'' ACCT_TYPE_CASH False (Some USD) []],
            Account ''Equity'' ACCT_TYPE_EQUITY False (Some EUR)
              [Account ''Car'' ACCT_TYPE_ASSET False (Some EUR) [],
               Account ''Opening Balances'' ACCT_TYPE_EQUITY False (Some EUR) []],
            Account ''Income'' ACCT_TYPE_INCOME False (Some EUR) []],
       transactions :=
         [(1, \<lparr>tx_description = ''Opening balance'', tx_date = Some (1, 1, 2025),
               tx_currency = Some EUR,
               tx_splits =
                 [\<lparr>split_account = Some [0, 0], split_amount = 501, split_value = 501\<rparr>,
                  \<lparr>split_account = Some [1, 1], split_amount = - 501,
                    split_value = - 501\<rparr>]\<rparr>),
          (2, \<lparr>tx_description = ''Opening balance'', tx_date = Some (1, 1, 2025),
               tx_currency = Some EUR,
               tx_splits =
                 [\<lparr>split_account = Some [0, 1], split_amount = 7, split_value = 14\<rparr>,
                  \<lparr>split_account = Some [1, 1], split_amount = - 14,
                    split_value = - 14\<rparr>]\<rparr>)]\<rparr>"



section \<open>Error paths of the run\<close>

text \<open>
  C5. When the target file already exists, \<^verbatim>\<open>prepare_new_year_file\<close> raises
  \<^verbatim>\<open>FileExistsError\<close> and leaves the world as it was: no file is copied or changed, no
  session is opened, nothing is purged. A run of \<^verbatim>\<open>main\<close> on an existing target
  therefore fails too, with the world unchanged.
\<close>

theorem prepare_target_exists:
  assumes "new_file \<in> dom (files w)"
  shows "prepare_new_year_file previous_file new_file w = (Inl FileExistsError, w)
       \<and> (\<exists>e. main previous_file new_file opening_date config w = (Inl e, w))"
  using assms by (simp add: prepare_new_year_file_def main_def split: option.splits)

theorem prepare_target_exists_witness:
  "''2024.gnucash'' \<in> dom (files ex_world)
   \<and> prepare_new_year_file ''2024.gnucash'' ''2024.gnucash'' ex_world
       = (Inl FileExistsError, ex_world)
   \<and> (\<exists>e. main ''2024.gnucash'' ''2024.gnucash'' ex_date ex_config ex_world
            = (Inl e, ex_world))"
proof -
  have target: "''2024.gnucash'' \<in> dom (files ex_world)"
    by (simp add: ex_world_def)
  from prepare_target_exists [OF target, of "''2024.gnucash''" ex_date ex_config] target
  show ?thesis by simp
qed

text \<open>
  C9. When one of the four required keys is missing from the configuration, the run
  raises \<^verbatim>\<open>KeyError\<close> for a missing key and leaves the world as it was: no file has
  been written, no session opened, so nothing of the new book is saved.
\<close>

theorem main_missing_key:
  assumes "k \<in> set required_keys" and "config k = None"
  shows "\<exists>k' \<in> set required_keys. config k' = None
           \<and> main previous_file new_file opening_date config w = (Inl (KeyError k'), w)"
  using assms by (auto simp add: required_keys_def main_def split: option.splits)

theorem main_missing_key_witness:
  "''currency'' \<in> set required_keys \<and> (ex_config(''currency'' := None)) ''currency'' = None
   \<and> (\<exists>k' \<in> set required_keys. (ex_config(''currency'' := None)) k' = None
         \<and> main ''2024.gnucash'' ''2025.gnucash'' ex_date (ex_config(''currency'' := None))
              ex_world = (Inl (KeyError k'), ex_world))"
proof -
  have key: "''currency'' \<in> set required_keys"
    by (simp add: required_keys_def)
  have missing: "(ex_config(''currency'' := None)) ''currency'' = None"
    by simp
  from main_missing_key [where k = "''currency''" and config = "ex_config(''currency'' := None)"
      and previous_file = "''2024.gnucash''" and new_file = "''2025.gnucash''"
      and opening_date = ex_date and w = ex_world, OF key missing]
    key missing
  show ?thesis by blast
qed

section \<open>Balance extractor: what is recorded\<close>

lemma balances_loop_keys:
  "fst ` set (balances_loop b accs bal)
     = fst ` set bal \<union> {fn. \<exists>r a. (r, fn, a) \<in> set accs \<and> recorded a}"
proof (induction accs arbitrary: bal)
  case Nil
  show ?case by simp
next
  case (Cons x accs)
  obtain r fn a where x: "x = (r, fn, a)" by (cases x)
  show ?case
    unfolding x by (auto simp add: Cons.IH recorded_def dom_update)
qed

lemma balances_loop_other:
  "fn \<notin> (\<lambda>(r, fn, a). fn) ` set accs \<Longrightarrow>
     map_of (balances_loop b accs bal) fn = map_of bal fn"
proof (induction accs arbitrary: bal)
  case Nil
  show ?case by simp
next
  case (Cons x accs)
  obtain r' fn' a' where x: "x = (r', fn', a')" by (cases x)
  from Cons.prems have "fn \<noteq> fn'" and rest: "fn \<notin> (\<lambda>(r, fn, a). fn) ` set accs"
    by (auto simp add: x)
  then show ?case
    unfolding x by (simp add: Cons.IH [OF rest] update_conv)
qed

lemma balances_loop_value:
  assumes "distinct (map (\<lambda>(r, fn, a). fn) accs)" and "(r, fn, a) \<in> set accs"
  shows "map_of (balances_loop b accs bal) fn
           = (if recorded a then Some (GetBalance b r) else map_of bal fn)"
  using assms
proof (induction accs arbitrary: bal)
  case Nil
  then show ?case by simp
next
  case (Cons x accs)
  obtain r' fn' a' where x: "x = (r', fn', a')" by (cases x)
  from Cons.prems(1) have fresh: "fn' \<notin> (\<lambda>(r, fn, a). fn) ` set accs"
    and dist: "distinct (map (\<lambda>(r, fn, a). fn) accs)"
    by (auto simp add: x)
  show ?case
  proof (cases "(r, fn, a) = x")
    case True
    then have same: "r' = r" "fn' = fn" "a' = a" by (simp_all add: x)
    from fresh show ?thesis
      unfolding x same
      by (simp add: balances_loop_other recorded_def update_conv)
  next
    case False
    with Cons.prems(2) have mem: "(r, fn, a) \<in> set accs" by simp
    then have "fn \<in> (\<lambda>(r, fn, a). fn) ` set accs" by force
    with fresh have "fn \<noteq> fn'" by blast
    then show ?thesis
      unfolding x by (simp add: Cons.IH [OF dist mem] update_conv)
  qed
qed

lemma walk_head: "(r, fn, a) \<in> set (walk sep r fn a)"
  by (cases a) simp

lemma walk_children_mem:
  "i < length cs \<Longrightarrow>
     (r @ [k + i], child_full_name sep r fn (acc_name (cs ! i)), cs ! i)
       \<in> set (walk_children sep r fn k cs)"
proof (induction cs arbitrary: i k)
  case Nil
  then show ?case by simp
next
  case (Cons c cs)
  show ?case
  proof (cases i)
    case 0
    then show ?thesis by (simp add: walk_head)
  next
    case (Suc j)
    with Cons.prems have "j < length cs" by simp
    from Cons.IH [OF this, of "Suc k"] show ?thesis by (simp add: Suc)
  qed
qed

lemma walk_children_closed:
  "(r, fn, a) \<in> set (walk sep r0 fn0 a0) \<Longrightarrow> i < length (acc_children a) \<Longrightarrow>
     (r @ [i], child_full_name sep r fn (acc_name (acc_children a ! i)), acc_children a ! i)
       \<in> set (walk sep r0 fn0 a0)"
  and
  "(r, fn, a) \<in> set (walk_children sep r0 fn0 k cs) \<Longrightarrow> i < length (acc_children a) \<Longrightarrow>
     (r @ [i], child_full_name sep r fn (acc_name (acc_children a ! i)), acc_children a ! i)
       \<in> set (walk_children sep r0 fn0 k cs)"
proof (induction sep r0 fn0 a0 and sep r0 fn0 k cs rule: walk_walk_children.induct)
  case (1 sep r0 fn0 n t p c ch)
  show ?case
  proof (cases "(r, fn, a) = (r0, fn0, Account n t p c ch)")
    case True
    with "1.prems"(2) have "i < length ch" by auto
    from walk_children_mem [OF this, of r0 0 sep fn0] True show ?thesis by simp
  next
    case False
    with "1.prems"(1) have "(r, fn, a) \<in> set (walk_children sep r0 fn0 0 ch)" by auto
    from "1.IH" [OF this "1.prems"(2)] show ?thesis by simp
  qed
next
  case (2 sep r0 fn0 k)
  then show ?case by simp
next
  case (3 sep r0 fn0 k c cs)
  then show ?case by auto
qed

text \<open>
  C2. The snapshot has an entry for a full name exactly when some account of the tree with
  that name is neither a placeholder nor of type income, expense, trading, root or equity.
  The traversal goes into the children of every visited account, recorded or skipped, so
  a child is judged by its own flag and type only. When full names are unique in the tree,
  the entry of a recorded account is its balance, whatever that is (zero included), and a
  skipped account has no entry.
\<close>

theorem get_account_balances_records:
  "fst ` set (get_account_balances b)
     = {fn. \<exists>r a. (r, fn, a) \<in> set (walk_book b) \<and> \<not> acc_placeholder a
          \<and> acc_type a \<notin> {ACCT_TYPE_INCOME, ACCT_TYPE_EXPENSE, ACCT_TYPE_TRADING,
                            ACCT_TYPE_ROOT, ACCT_TYPE_EQUITY}}
   \<and> (\<forall>r fn a. (r, fn, a) \<in> set (walk_book b) \<longrightarrow>
         (\<forall>i < length (acc_children a).
            (r @ [i], child_full_name (account_separator b) r fn (acc_name (acc_children a ! i)),
             acc_children a ! i) \<in> set (walk_book b)))
   \<and> (distinct (map (\<lambda>(r, fn, a). fn) (walk_book b)) \<longrightarrow>
        (\<forall>r fn a. (r, fn, a) \<in> set (walk_book b) \<longrightarrow>
           map_of (get_account_balances b) fn
             = (if acc_placeholder a
                   \<or> acc_type a \<in> {ACCT_TYPE_INCOME, ACCT_TYPE_EXPENSE, ACCT_TYPE_TRADING,
                                     ACCT_TYPE_ROOT, ACCT_TYPE_EQUITY}
                then None else Some (GetBalance b r))))"
proof (intro conjI allI impI)
  show "fst ` set (get_account_balances b)
     = {fn. \<exists>r a. (r, fn, a) \<in> set (walk_book b) \<and> \<not> acc_placeholder a
          \<and> acc_type a \<notin> {ACCT_TYPE_INCOME, ACCT_TYPE_EXPENSE, ACCT_TYPE_TRADING,
                            ACCT_TYPE_ROOT, ACCT_TYPE_EQUITY}}"
    by (simp add: get_account_balances_def balances_loop_keys recorded_def
        ACCOUNT_TYPES_TO_EXCLUDE_def)
next
  fix r fn a i
  assume "(r, fn, a) \<in> set (walk_book b)" and "i < length (acc_children a)"
  then show "(r @ [i], child_full_name (account_separator b) r fn (acc_name (acc_children a ! i)),
             acc_children a ! i) \<in> set (walk_book b)"
    unfolding walk_book_def by (rule walk_children_closed(1))
next
  fix r fn a
  assume "distinct (map (\<lambda>(r, fn, a). fn) (walk_book b))" and "(r, fn, a) \<in> set (walk_book b)"
  from balances_loop_value [OF this, of b "[]"]
  show "map_of (get_account_balances b) fn
             = (if acc_placeholder a
                   \<or> acc_type a \<in> {ACCT_TYPE_INCOME, ACCT_TYPE_EXPENSE, ACCT_TYPE_TRADING,
                                     ACCT_TYPE_ROOT, ACCT_TYPE_EQUITY}
                then None else Some (GetBalance b r))"
    by (simp add: get_account_balances_def recorded_def ACCOUNT_TYPES_TO_EXCLUDE_def)
qed


lemma ex_walk_book:
  "walk_book ex_book =
     [([], [], ex_root),
      ([0], ''Assets'', Account ''Assets'' ACCT_TYPE_ASSET True (Some EUR)
          [Account ''Checking'' ACCT_TYPE_BANK False (Some EUR) [],
           Account ''Cash'' ACCT_TYPE_CASH False (Some USD) []]),
      ([0, 0], ''Assets.Checking'', Account ''Checking'' ACCT_TYPE_BANK False (Some EUR) []),
      ([0, 1], ''Assets.Cash'', Account ''Cash'' ACCT_TYPE_CASH False (Some USD) []),
      ([1], ''Equity'', Account ''Equity'' ACCT_TYPE_EQUITY False (Some EUR)
          [Account ''Car'' ACCT_TYPE_ASSET False (Some EUR) []]),
      ([1, 0], ''Equity.Car'', Account ''Car'' ACCT_TYPE_ASSET False (Some EUR) []),
      ([2], ''Income'', Account ''Income'' ACCT_TYPE_INCOME False (Some EUR) [])]"
  by (simp add: walk_book_def ex_book_def ex_root_def child_full_name_def)

theorem get_account_balances_records_witness:
  "distinct (map (\<lambda>(r, fn, a). fn) (walk_book ex_book))
   \<and> map_of (get_account_balances ex_book) ''Equity'' = None
   \<and> map_of (get_account_balances ex_book) ''Equity.Car'' = Some 0
   \<and> map_of (get_account_balances ex_book) ''Assets'' = None
   \<and> map_of (get_account_balances ex_book) ''Assets.Checking'' = Some 501"
proof -
  have names: "distinct (map (\<lambda>(r, fn, a). fn) (walk_book ex_book))"
    by (simp add: ex_walk_book)
  with get_account_balances_records [of ex_book]
  have entry: "\<And>r fn a. (r, fn, a) \<in> set (walk_book ex_book) \<Longrightarrow>
    map_of (get_account_balances ex_book) fn
      = (if acc_placeholder a
            \<or> acc_type a \<in> {ACCT_TYPE_INCOME, ACCT_TYPE_EXPENSE, ACCT_TYPE_TRADING,
                              ACCT_TYPE_ROOT, ACCT_TYPE_EQUITY}
         then None else Some (GetBalance ex_book r))"
    by blast
  have bal_car: "GetBalance ex_book [1, 0] = 0"
    by (simp add: GetBalance_def all_splits_def ex_book_def ex_transactions_def ex_orphan_def)
  have bal_checking: "GetBalance ex_book [0, 0] = 501"
    by (simp add: GetBalance_def all_splits_def ex_book_def ex_transactions_def ex_orphan_def)
  have "map_of (get_account_balances ex_book) ''Equity'' = None"
    using entry [of "[1]" "''Equity''"] by (simp add: ex_walk_book)
  moreover have "map_of (get_account_balances ex_book) ''Equity.Car'' = Some 0"
    using entry [of "[1, 0]" "''Equity.Car''"] bal_car by (simp add: ex_walk_book)
  moreover have "map_of (get_account_balances ex_book) ''Assets'' = None"
    using entry [of "[0]" "''Assets''"] by (simp add: ex_walk_book)
  moreover have "map_of (get_account_balances ex_book) ''Assets.Checking'' = Some 501"
    using entry [of "[0, 0]" "''Assets.Checking''"] bal_checking by (simp add: ex_walk_book)
  ultimately show ?thesis using names by simp
qed

section \<open>Year rollover preparer: what the purge leaves\<close>

lemma purge_splits_result:
  "\<exists>n \<ge> length (filter (\<lambda>s. ref_transaction s = None) L).
     purge_splits fn L (b, ws)
       = (b\<lparr>transactions :=
              filter (\<lambda>p. Some (fst p) \<notin> set (map ref_transaction L)) (transactions b)\<rparr>,
          ws @ replicate n (no_parent_warning fn))"
proof (induction L arbitrary: b ws)
  case Nil
  show ?case by simp
next
  case (Cons s L)
  let ?keep = "\<lambda>L (p :: nat \<times> transaction). Some (fst p) \<notin> set (map ref_transaction L)"
  let ?orph = "\<lambda>L. length (filter (\<lambda>s. ref_transaction s = None) L)"
  show ?case
  proof (cases "split_parent b s")
    case None
    from Cons.IH [of b "ws @ [no_parent_warning fn]"]
    obtain n where n: "n \<ge> ?orph L"
      and res: "purge_splits fn L (b, ws @ [no_parent_warning fn])
        = (b\<lparr>transactions := filter (?keep L) (transactions b)\<rparr>,
           (ws @ [no_parent_warning fn]) @ replicate n (no_parent_warning fn))"
      by blast
    have same: "filter (?keep L) (transactions b) = filter (?keep (s # L)) (transactions b)"
    proof (rule filter_cong [OF refl])
      fix p assume "p \<in> set (transactions b)"
      with None show "?keep L p = ?keep (s # L) p"
        by (cases s) (auto split: if_splits)
    qed
    have "purge_splits fn (s # L) (b, ws)
        = (b\<lparr>transactions := filter (?keep (s # L)) (transactions b)\<rparr>,
           ws @ replicate (Suc n) (no_parent_warning fn))"
      unfolding same [symmetric] using None res by (simp add: replicate_app_Cons_same)
    moreover have "Suc n \<ge> ?orph (s # L)"
      using n by simp
    ultimately show ?thesis by blast
  next
    case (Some i)
    then obtain k where s: "s = TxSplit i k"
      by (cases s) (auto split: if_splits)
    from Cons.IH [of "Destroy i b" ws]
    obtain n where n: "n \<ge> ?orph L"
      and res: "purge_splits fn L (Destroy i b, ws)
        = ((Destroy i b)\<lparr>transactions := filter (?keep L) (transactions (Destroy i b))\<rparr>,
           ws @ replicate n (no_parent_warning fn))"
      by blast
    have same: "filter (?keep L) (filter (\<lambda>(j, t). j \<noteq> i) (transactions b))
              = filter (?keep (s # L)) (transactions b)"
      unfolding filter_filter
      by (rule filter_cong [OF refl]) (auto simp add: s)
    have "purge_splits fn (s # L) (b, ws)
        = (b\<lparr>transactions := filter (?keep (s # L)) (transactions b)\<rparr>,
           ws @ replicate n (no_parent_warning fn))"
      unfolding same [symmetric] using Some res by (simp add: Destroy_def)
    moreover have "n \<ge> ?orph (s # L)"
      using n by (simp add: s)
    ultimately show ?thesis by blast
  qed
qed

lemma splits_in_nonempty:
  "splits_in r ss \<noteq> [] \<longleftrightarrow> (\<exists>s \<in> set ss. split_account s = Some r)"
proof
  assume "splits_in r ss \<noteq> []"
  then obtain k where "k < length ss" and "split_account (ss ! k) = Some r"
    by (auto simp add: splits_in_def filter_empty_conv)
  then show "\<exists>s \<in> set ss. split_account s = Some r"
    using nth_mem by blast
next
  assume "\<exists>s \<in> set ss. split_account s = Some r"
  then obtain k where "k < length ss" and "split_account (ss ! k) = Some r"
    by (metis in_set_conv_nth)
  then show "splits_in r ss \<noteq> []"
    by (auto simp add: splits_in_def filter_empty_conv)
qed

lemma GetSplitList_refs:
  "set (map ref_transaction (GetSplitList b r))
     = Some ` {i. \<exists>t. (i, t) \<in> set (transactions b) \<and> splits_in r (tx_splits t) \<noteq> []}
       \<union> (if splits_in r (orphan_splits b) = [] then {} else {None})"
proof -
  have tx: "set (map ref_transaction
              (concat (map (\<lambda>(i, t). map (TxSplit i) (splits_in r (tx_splits t))) ts)))
          = Some ` {i. \<exists>t. (i, t) \<in> set ts \<and> splits_in r (tx_splits t) \<noteq> []}" for ts
  proof (induction ts)
    case Nil
    show ?case by simp
  next
    case (Cons p ts)
    obtain i t where p: "p = (i, t)" by (cases p)
    have "set (map ref_transaction (map (TxSplit i) (splits_in r (tx_splits t))))
            = (if splits_in r (tx_splits t) = [] then {} else {Some i})"
      by (cases "splits_in r (tx_splits t)") auto
    with Cons.IH show ?case
      unfolding p by (auto simp del: set_map map_map)
  qed
  have orphan: "set (map ref_transaction (map OrphanSplit ks))
                  = (if ks = [] then {} else {None})" for ks
    by (cases ks) auto
  show ?thesis
    unfolding GetSplitList_def map_append set_append tx orphan by simp
qed

lemma GetSplitList_touched:
  "Some j \<in> set (map ref_transaction (GetSplitList b r))
     \<longleftrightarrow> j \<in> set (touched [r] (transactions b))"
proof -
  have "Some j \<in> set (map ref_transaction (GetSplitList b r))
     \<longleftrightarrow> (\<exists>t. (j, t) \<in> set (transactions b) \<and> splits_in r (tx_splits t) \<noteq> [])"
    unfolding GetSplitList_refs by auto
  also have "\<dots> \<longleftrightarrow> (\<exists>t. (j, t) \<in> set (transactions b) \<and> in_accounts [r] t)"
    by (simp add: splits_in_nonempty in_accounts_def)
  also have "\<dots> \<longleftrightarrow> j \<in> set (touched [r] (transactions b))"
    unfolding touched_def by force
  finally show ?thesis .
qed

lemma GetSplitList_orphans:
  "length (filter (\<lambda>s. ref_transaction s = None) (GetSplitList b r))
     = length (splits_in r (orphan_splits b))"
proof -
  have "filter (\<lambda>s. ref_transaction s = None)
          (concat (map (\<lambda>(i, t). map (TxSplit i) (splits_in r (tx_splits t))) ts)) = []"
    for ts :: "(nat \<times> transaction) list"
    by (induction ts) (auto simp add: filter_empty_conv)
  moreover have "filter (\<lambda>s. ref_transaction s = None) (map OrphanSplit ks) = map OrphanSplit ks"
    for ks
    by (induction ks) auto
  ultimately show ?thesis
    by (simp add: GetSplitList_def)
qed

lemma touched_iff:
  "j \<in> set (touched refs ts) \<longleftrightarrow> (\<exists>t. (j, t) \<in> set ts \<and> in_accounts refs t)"
  unfolding touched_def by force

lemma in_accounts_Cons:
  "in_accounts (r # refs) t \<longleftrightarrow> in_accounts [r] t \<or> in_accounts refs t"
  unfolding in_accounts_def by auto

lemma touched_Cons:
  "j \<in> set (touched (r # refs) ts) \<longleftrightarrow> j \<in> set (touched [r] ts) \<or> j \<in> set (touched refs ts)"
  unfolding touched_iff in_accounts_Cons [of r refs] by blast

lemma touched_after:
  assumes "j \<notin> set (touched [r] ts)"
  shows "j \<in> set (touched refs (filter (\<lambda>p. fst p \<notin> set (touched [r] ts)) ts))
           \<longleftrightarrow> j \<in> set (touched refs ts)"
  using assms unfolding touched_iff by auto

lemma purged_step:
  "purged refs (purged [r] b) = purged (r # refs) b"
proof -
  let ?ts = "transactions b"
  let ?ts1 = "filter (\<lambda>p. fst p \<notin> set (touched [r] ?ts)) ?ts"
  have "filter (\<lambda>p. fst p \<notin> set (touched refs ?ts1)) ?ts1
          = filter (\<lambda>p. fst p \<notin> set (touched (r # refs) ?ts)) ?ts"
    unfolding filter_filter
  proof (rule filter_cong [OF refl])
    fix p assume "p \<in> set ?ts"
    show "(fst p \<notin> set (touched [r] ?ts) \<and> fst p \<notin> set (touched refs ?ts1))
            = (fst p \<notin> set (touched (r # refs) ?ts))"
      using touched_after [of "fst p" r ?ts refs] touched_Cons [of "fst p" r refs ?ts]
      by blast
  qed
  then show ?thesis
    by (simp add: purged_def)
qed

lemma purged_Nil: "purged [] b = b"
  by (simp add: purged_def touched_def in_accounts_def)

lemma purge_accounts_result:
  "\<exists>new. purge_accounts accs (b, ws) = (purged (map fst accs) b, ws @ new)
     \<and> orphans_in (map fst accs) b \<le> length new
     \<and> set new \<subseteq> (\<lambda>acc. no_parent_warning (fst (snd acc))) ` set accs"
proof (induction accs arbitrary: b ws)
  case Nil
  show ?case by (simp add: purged_Nil orphans_in_def)
next
  case (Cons acc accs)
  obtain r fn a where acc: "acc = (r, fn, a)" by (cases acc)
  from purge_splits_result [of "GetSplitList b r" fn b ws]
  obtain n where n: "length (splits_in r (orphan_splits b)) \<le> n"
    and first: "purge_splits fn (GetSplitList b r) (b, ws)
      = (b\<lparr>transactions :=
             filter (\<lambda>p. Some (fst p) \<notin> set (map ref_transaction (GetSplitList b r)))
               (transactions b)\<rparr>,
         ws @ replicate n (no_parent_warning fn))"
    unfolding GetSplitList_orphans by blast
  have first': "purge_splits fn (GetSplitList b r) (b, ws)
      = (purged [r] b, ws @ replicate n (no_parent_warning fn))"
    unfolding first GetSplitList_touched purged_def ..
  from Cons.IH [of "purged [r] b" "ws @ replicate n (no_parent_warning fn)"]
  obtain new where rest: "purge_accounts accs (purged [r] b, ws @ replicate n (no_parent_warning fn))
      = (purged (map fst accs) (purged [r] b), (ws @ replicate n (no_parent_warning fn)) @ new)"
    and count: "orphans_in (map fst accs) (purged [r] b) \<le> length new"
    and msgs: "set new \<subseteq> (\<lambda>acc. no_parent_warning (fst (snd acc))) ` set accs"
    by blast
  have same_orphans: "orphans_in (map fst accs) (purged [r] b) = orphans_in (map fst accs) b"
    by (simp add: orphans_in_def purged_def)
  let ?new = "replicate n (no_parent_warning fn) @ new"
  have "purge_accounts (acc # accs) (b, ws) = (purged (map fst (acc # accs)) b, ws @ ?new)"
    by (simp add: acc first' rest purged_step)
  moreover have "orphans_in (map fst (acc # accs)) b \<le> length ?new"
    using n count unfolding same_orphans by (simp add: acc orphans_in_def)
  moreover have "set ?new \<subseteq> (\<lambda>acc. no_parent_warning (fst (snd acc))) ` set (acc # accs)"
    using msgs by (auto simp add: acc)
  ultimately show ?case by blast
qed

lemma prepare_result:
  assumes "new_file \<notin> dom (files w)" and "files w previous_file = Some b"
  shows "\<exists>new. prepare_new_year_file previous_file new_file w
           = (Inr \<lparr>sess_id = length (sessions w), sess_path = new_file,
                   sess_book = purged (map fst (get_descendants b)) b\<rparr>,
              w\<lparr>files := (files w)(new_file \<mapsto> b),
                sessions := sessions w @
                  [\<lparr>si_path = new_file, si_mode = SESSION_NORMAL_OPEN, si_ended = False\<rparr>],
                warnings := warnings w @ new\<rparr>)
         \<and> orphans_in (map fst (get_descendants b)) b \<le> length new
         \<and> set new \<subseteq> (\<lambda>acc. no_parent_warning (fst (snd acc))) ` set (get_descendants b)"
proof -
  from purge_accounts_result [of "get_descendants b" b "[]"]
  obtain new where purge: "purge_accounts (get_descendants b) (b, [])
        = (purged (map fst (get_descendants b)) b, new)"
    and count: "orphans_in (map fst (get_descendants b)) b \<le> length new"
    and msgs: "set new \<subseteq> (\<lambda>acc. no_parent_warning (fst (snd acc))) ` set (get_descendants b)"
    by auto
  from assms have "prepare_new_year_file previous_file new_file w
           = (Inr \<lparr>sess_id = length (sessions w), sess_path = new_file,
                   sess_book = purged (map fst (get_descendants b)) b\<rparr>,
              w\<lparr>files := (files w)(new_file \<mapsto> b),
                sessions := sessions w @
                  [\<lparr>si_path = new_file, si_mode = SESSION_NORMAL_OPEN, si_ended = False\<rparr>],
                warnings := warnings w @ new\<rparr>)"
    by (simp add: prepare_new_year_file_def copyfile_def Session_def purge domIff)
  with count msgs show ?thesis by blast
qed

lemma prepare_success:
  assumes "prepare_new_year_file previous_file new_file w = (Inr session_new, w')"
  shows "new_file \<notin> dom (files w) \<and> (\<exists>b. files w previous_file = Some b)"
  using assms
  by (auto simp add: prepare_new_year_file_def copyfile_def split: if_splits option.splits)

lemma purged_none_in_accounts:
  "\<forall>p \<in> set (transactions (purged refs b)). \<not> in_accounts refs (snd p)"
  unfolding purged_def using touched_iff [of _ refs "transactions b"]
  by (auto simp del: set_map)

text \<open>
  C4, as the code has it. When \<^verbatim>\<open>prepare_new_year_file\<close> succeeds, the book of the
  returned session has the account tree of the previous year's book unchanged and the
  orphan splits of that book unchanged; its transactions are transactions of the previous
  book, and none of them has a split in an account below the root. Where every transaction
  of the previous book has such a split and the book has no orphan split, the returned
  book has no transaction and no split.
\<close>

theorem prepare_new_year_file_book:
  assumes "prepare_new_year_file previous_file new_file w = (Inr session_new, w')"
  shows "\<exists>b. files w previous_file = Some b
     \<and> root_account (sess_book session_new) = root_account b
     \<and> set (transactions (sess_book session_new)) \<subseteq> set (transactions b)
     \<and> (\<forall>p \<in> set (transactions (sess_book session_new)).
          \<not> in_accounts (map fst (get_descendants b)) (snd p))
     \<and> orphan_splits (sess_book session_new) = orphan_splits b
     \<and> ((\<forall>p \<in> set (transactions b). in_accounts (map fst (get_descendants b)) (snd p))
          \<and> orphan_splits b = []
        \<longrightarrow> transactions (sess_book session_new) = []
            \<and> all_splits (sess_book session_new) = [])"
proof -
  from prepare_success [OF assms] obtain b
    where new: "new_file \<notin> dom (files w)" and prev: "files w previous_file = Some b"
    by blast
  let ?refs = "map fst (get_descendants b)"
  from prepare_result [OF new prev, of] assms
  have book: "sess_book session_new = purged ?refs b"
    by auto
  have empty: "transactions (purged ?refs b) = [] \<and> all_splits (purged ?refs b) = []"
    if all: "\<forall>p \<in> set (transactions b). in_accounts ?refs (snd p)"
      and none: "orphan_splits b = []"
  proof -
    from all have "\<forall>p \<in> set (transactions b). fst p \<in> set (touched ?refs (transactions b))"
      unfolding touched_iff by (metis prod.collapse)
    then have "transactions (purged ?refs b) = []"
      by (simp add: purged_def filter_empty_conv)
    then show ?thesis
      using none by (simp add: all_splits_def purged_def)
  qed
  have "root_account (purged ?refs b) = root_account b"
    and "orphan_splits (purged ?refs b) = orphan_splits b"
    and "set (transactions (purged ?refs b)) \<subseteq> set (transactions b)"
    by (simp_all add: purged_def)
  with prev empty purged_none_in_accounts [of ?refs b] show ?thesis
    unfolding book by blast
qed

lemma ex_descendants:
  "map fst (get_descendants ex_book) = [[0], [0, 0], [0, 1], [1], [1, 0], [2]]"
  by (simp add: get_descendants_def ex_walk_book)

lemma ex_purged:
  "purged [[0], [0, 0], [0, 1], [1], [1, 0], [2]] ex_book = ex_book\<lparr>transactions := []\<rparr>"
  by (simp add: purged_def touched_def in_accounts_def ex_book_def ex_transactions_def)

text \<open>
  The claim C4 without the condition fails: a split without a transaction is skipped by the
  purge, so the book of the example world still has its orphan split after the purge.
\<close>

theorem prepare_new_year_file_book_counterexample:
  "fst (prepare_new_year_file ''2024.gnucash'' ''2025.gnucash'' ex_world)
     = Inr \<lparr>sess_id = 0, sess_path = ''2025.gnucash'',
            sess_book = ex_book\<lparr>transactions := []\<rparr>\<rparr>
   \<and> all_splits (ex_book\<lparr>transactions := []\<rparr>) = [ex_orphan]"
proof -
  have new: "''2025.gnucash'' \<notin> dom (files ex_world)"
    and prev: "files ex_world ''2024.gnucash'' = Some ex_book"
    by (simp_all add: ex_world_def)
  from prepare_result [OF new prev]
  have "fst (prepare_new_year_file ''2024.gnucash'' ''2025.gnucash'' ex_world)
     = Inr \<lparr>sess_id = 0, sess_path = ''2025.gnucash'',
            sess_book = ex_book\<lparr>transactions := []\<rparr>\<rparr>"
    unfolding ex_descendants ex_purged by (auto simp add: ex_world_def)
  moreover have "all_splits (ex_book\<lparr>transactions := []\<rparr>) = [ex_orphan]"
    by (simp add: all_splits_def ex_book_def)
  ultimately show ?thesis by simp
qed

lemma ex_clean_descendants:
  "map fst (get_descendants ex_clean_book) = [[0], [0, 0], [0, 1], [1], [1, 0], [2]]"
  by (simp add: get_descendants_def walk_book_def ex_clean_book_def ex_book_def ex_root_def
      child_full_name_def)

theorem prepare_new_year_file_book_witness:
  "\<exists>session_new w'.
     prepare_new_year_file ''2024.gnucash'' ''2025.gnucash'' ex_clean_world = (Inr session_new, w')
     \<and> root_account (sess_book session_new) = ex_root
     \<and> transactions (sess_book session_new) = []
     \<and> all_splits (sess_book session_new) = []"
proof -
  have new: "''2025.gnucash'' \<notin> dom (files ex_clean_world)"
    and prev: "files ex_clean_world ''2024.gnucash'' = Some ex_clean_book"
    by (simp_all add: ex_clean_world_def)
  from prepare_result [OF new prev] obtain session_new w'
    where run: "prepare_new_year_file ''2024.gnucash'' ''2025.gnucash'' ex_clean_world
                  = (Inr session_new, w')"
    by blast
  have all: "\<forall>p \<in> set (transactions ex_clean_book).
               in_accounts (map fst (get_descendants ex_clean_book)) (snd p)"
    unfolding ex_clean_descendants
    by (simp add: in_accounts_def ex_clean_book_def ex_book_def ex_transactions_def)
  have none: "orphan_splits ex_clean_book = []"
    by (simp add: ex_clean_book_def)
  have root: "root_account ex_clean_book = ex_root"
    by (simp add: ex_clean_book_def ex_book_def)
  from prepare_new_year_file_book [OF run] prev all none root
  have "root_account (sess_book session_new) = ex_root
     \<and> transactions (sess_book session_new) = []
     \<and> all_splits (sess_book session_new) = []"
    by auto
  with run show ?thesis by blast
qed




section \<open>Opening transaction synthesizer: accounts\<close>

lemma extends_refl: "extends tree tree"
  by (simp add: extends_def same_attributes_def)

lemma extends_trans:
  assumes "extends tree'' tree'" and "extends tree' tree"
  shows "extends tree'' tree"
  unfolding extends_def
proof (intro allI impI)
  fix r a assume "account_at tree r = Some a"
  with assms(2) obtain a' where a': "account_at tree' r = Some a'" "same_attributes a a'"
    unfolding extends_def by blast
  with assms(1) obtain a'' where "account_at tree'' r = Some a''" "same_attributes a' a''"
    unfolding extends_def by blast
  with a' show "\<exists>a''. account_at tree'' r = Some a'' \<and> same_attributes a a''"
    by (auto simp add: same_attributes_def)
qed

lemma append_child_at_attributes:
  "account_at a r = Some x \<Longrightarrow>
     \<exists>x'. account_at (append_child_at p new a) r = Some x' \<and> same_attributes x x'"
proof (induction p arbitrary: a r)
  case Nil
  obtain n t pl c ch where a: "a = Account n t pl c ch" by (cases a)
  show ?case
  proof (cases r)
    case Nil
    with \<open>account_at a r = Some x\<close> show ?thesis
      by (auto simp add: a same_attributes_def)
  next
    case (Cons i r')
    with Nil.prems show ?thesis
      by (auto simp add: a nth_append same_attributes_def split: if_splits)
  qed
next
  case (Cons j p)
  obtain n t pl c ch where a: "a = Account n t pl c ch" by (cases a)
  show ?case
  proof (cases r)
    case Nil
    with Cons.prems show ?thesis
      by (auto simp add: a same_attributes_def)
  next
    case r: (Cons i r')
    from Cons.prems have i: "i < length ch" and sub: "account_at (ch ! i) r' = Some x"
      by (auto simp add: a r split: if_splits)
    show ?thesis
    proof (cases "i = j")
      case True
      from Cons.IH [OF sub] i show ?thesis
        by (simp add: a r True)
    next
      case False
      with i sub show ?thesis
        by (auto simp add: a r same_attributes_def)
    qed
  qed
qed

lemma append_child_at_extends: "extends (append_child_at p new a) a"
  unfolding extends_def using append_child_at_attributes by blast

lemma append_child_at_new:
  "account_at a p = Some x \<Longrightarrow>
     account_at (append_child_at p new a) (p @ [length (acc_children x)]) = Some new"
proof (induction p arbitrary: a)
  case Nil
  then show ?case by (cases a) auto
next
  case (Cons j p)
  obtain n t pl c ch where a: "a = Account n t pl c ch" by (cases a)
  from Cons.prems have j: "j < length ch" and sub: "account_at (ch ! j) p = Some x"
    by (auto simp add: a split: if_splits)
  from Cons.IH [OF sub] j show ?case
    by (simp add: a)
qed

lemma walk_valid:
  "(r, fn, a) \<in> set (walk sep r0 fn0 a0) \<Longrightarrow>
     \<exists>r'. r = r0 @ r' \<and> account_at a0 r' = Some a"
  and
  "(r, fn, a) \<in> set (walk_children sep r0 fn0 k cs) \<Longrightarrow>
     \<exists>i r'. i < length cs \<and> r = r0 @ [k + i] @ r' \<and> account_at (cs ! i) r' = Some a"
proof (induction sep r0 fn0 a0 and sep r0 fn0 k cs rule: walk_walk_children.induct)
  case (1 sep r0 fn0 n t p c ch)
  show ?case
  proof (cases "(r, fn, a) = (r0, fn0, Account n t p c ch)")
    case True
    then show ?thesis by simp
  next
    case False
    with "1.prems" have "(r, fn, a) \<in> set (walk_children sep r0 fn0 0 ch)" by auto
    from "1.IH" [OF this] obtain i r' where "i < length ch" "r = r0 @ [i] @ r'"
      "account_at (ch ! i) r' = Some a"
      by auto
    then have "r = r0 @ (i # r') \<and> account_at (Account n t p c ch) (i # r') = Some a"
      by simp
    then show ?thesis by blast
  qed
next
  case (2 sep r0 fn0 k)
  then show ?case by simp
next
  case (3 sep r0 fn0 k c cs)
  from "3.prems" consider
    (head) "(r, fn, a) \<in> set (walk sep (r0 @ [k]) (child_full_name sep r0 fn0 (acc_name c)) c)"
    | (tail) "(r, fn, a) \<in> set (walk_children sep r0 fn0 (Suc k) cs)"
    by auto
  then show ?case
  proof cases
    case head
    from "3.IH"(1) [OF head] obtain r' where "r = (r0 @ [k]) @ r'" "account_at c r' = Some a"
      by blast
    then have "0 < length (c # cs) \<and> r = r0 @ [k + 0] @ r'
                 \<and> account_at ((c # cs) ! 0) r' = Some a"
      by simp
    then show ?thesis by blast
  next
    case tail
    from "3.IH"(2) [OF tail] obtain i r' where "i < length cs" "r = r0 @ [Suc k + i] @ r'"
      "account_at (cs ! i) r' = Some a"
      by blast
    then have "Suc i < length (c # cs) \<and> r = r0 @ [k + Suc i] @ r'
                 \<and> account_at ((c # cs) ! Suc i) r' = Some a"
      by simp
    then show ?thesis by blast
  qed
qed

lemma lookup_by_full_name_valid:
  assumes "lookup_by_full_name b n = Some r"
  shows "\<exists>a. account_at (root_account b) r = Some a"
proof -
  from assms obtain fn a where "find (\<lambda>(r, fn, a). fn = n) (get_descendants b) = Some (r, fn, a)"
    unfolding lookup_by_full_name_def by auto
  then have "(r, fn, a) \<in> set (get_descendants b)"
    by (metis find_Some_iff nth_mem)
  then have "(r, fn, a) \<in> set (walk_book b)"
    unfolding get_descendants_def by (metis list.sel(2) list.set_sel(2))
  from walk_valid(1) [OF this [unfolded walk_book_def]] show ?thesis
    by simp
qed

lemma locate_account_at:
  "locate sep p fn a r = Some (fn', a') \<Longrightarrow> account_at a r = Some a'"
  by (induction r arbitrary: p fn a) (auto split: if_splits)

lemma walk_locate:
  "(r, fn, a) \<in> set (walk sep r0 fn0 a0) \<Longrightarrow>
     \<exists>r'. r = r0 @ r' \<and> locate sep r0 fn0 a0 r' = Some (fn, a)"
  and walk_children_locate:
  "(r, fn, a) \<in> set (walk_children sep r0 fn0 k cs) \<Longrightarrow>
     \<exists>i r'. i < length cs \<and> r = r0 @ [k + i] @ r'
       \<and> locate sep (r0 @ [k + i]) (child_full_name sep r0 fn0 (acc_name (cs ! i))) (cs ! i) r'
           = Some (fn, a)"
proof (induction sep r0 fn0 a0 and sep r0 fn0 k cs rule: walk_walk_children.induct)
  case (1 sep r0 fn0 n t p c ch)
  show ?case
  proof (cases "(r, fn, a) = (r0, fn0, Account n t p c ch)")
    case True
    then have "r = r0 @ [] \<and> locate sep r0 fn0 (Account n t p c ch) [] = Some (fn, a)"
      by simp
    then show ?thesis by blast
  next
    case False
    with "1.prems" have "(r, fn, a) \<in> set (walk_children sep r0 fn0 0 ch)" by auto
    from "1.IH" [OF this] obtain i r' where i: "i < length ch" and r: "r = r0 @ [i] @ r'"
      and loc: "locate sep (r0 @ [i]) (child_full_name sep r0 fn0 (acc_name (ch ! i))) (ch ! i) r'
                  = Some (fn, a)"
      by auto
    from i loc have "locate sep r0 fn0 (Account n t p c ch) (i # r') = Some (fn, a)"
      by simp
    with r have "r = r0 @ (i # r') \<and> locate sep r0 fn0 (Account n t p c ch) (i # r') = Some (fn, a)"
      by simp
    then show ?thesis by blast
  qed
next
  case (2 sep r0 fn0 k)
  then show ?case by simp
next
  case (3 sep r0 fn0 k c cs)
  from "3.prems" consider
    (head) "(r, fn, a) \<in> set (walk sep (r0 @ [k]) (child_full_name sep r0 fn0 (acc_name c)) c)"
    | (tail) "(r, fn, a) \<in> set (walk_children sep r0 fn0 (Suc k) cs)"
    by auto
  then show ?case
  proof cases
    case head
    from "3.IH"(1) [OF head] obtain r' where "r = (r0 @ [k]) @ r'"
      "locate sep (r0 @ [k]) (child_full_name sep r0 fn0 (acc_name c)) c r' = Some (fn, a)"
      by blast
    then have "0 < length (c # cs) \<and> r = r0 @ [k + 0] @ r'
       \<and> locate sep (r0 @ [k + 0]) (child_full_name sep r0 fn0 (acc_name ((c # cs) ! 0)))
            ((c # cs) ! 0) r' = Some (fn, a)"
      by simp
    then show ?thesis by blast
  next
    case tail
    from "3.IH"(2) [OF tail] obtain i r' where "i < length cs" "r = r0 @ [Suc k + i] @ r'"
      "locate sep (r0 @ [Suc k + i]) (child_full_name sep r0 fn0 (acc_name (cs ! i))) (cs ! i) r'
         = Some (fn, a)"
      by blast
    then have "Suc i < length (c # cs) \<and> r = r0 @ [k + Suc i] @ r'
       \<and> locate sep (r0 @ [k + Suc i])
            (child_full_name sep r0 fn0 (acc_name ((c # cs) ! Suc i))) ((c # cs) ! Suc i) r'
           = Some (fn, a)"
      by simp
    then show ?thesis by blast
  qed
qed

lemma walk_children_subset:
  "i < length cs \<Longrightarrow>
     set (walk sep (r @ [k + i]) (child_full_name sep r fn (acc_name (cs ! i))) (cs ! i))
       \<subseteq> set (walk_children sep r fn k cs)"
proof (induction cs arbitrary: i k)
  case Nil
  then show ?case by simp
next
  case (Cons c cs)
  show ?case
  proof (cases i)
    case 0
    then show ?thesis by simp
  next
    case (Suc j)
    with Cons.prems have "j < length cs" by simp
    from Cons.IH [OF this, of "Suc k"] show ?thesis by (auto simp add: Suc)
  qed
qed

lemma locate_walk:
  "locate sep r0 fn0 a0 r' = Some (fn, a) \<Longrightarrow> (r0 @ r', fn, a) \<in> set (walk sep r0 fn0 a0)"
proof (induction r' arbitrary: r0 fn0 a0)
  case Nil
  then show ?case by (simp add: walk_head)
next
  case (Cons i r')
  obtain n t p c ch where a0: "a0 = Account n t p c ch" by (cases a0)
  from Cons.prems have i: "i < length ch"
    and loc: "locate sep (r0 @ [i]) (child_full_name sep r0 fn0 (acc_name (ch ! i))) (ch ! i) r'
                = Some (fn, a)"
    by (auto simp add: a0 split: if_splits)
  from Cons.IH [OF loc]
  have "(r0 @ i # r', fn, a)
          \<in> set (walk sep (r0 @ [i]) (child_full_name sep r0 fn0 (acc_name (ch ! i))) (ch ! i))"
    by simp
  with walk_children_subset [OF i, of sep r0 0 fn0]
  have "(r0 @ i # r', fn, a) \<in> set (walk_children sep r0 fn0 0 ch)"
    by auto
  then show ?case by (simp add: a0)
qed

lemma descendants_iff:
  "(r, fn, a) \<in> set (get_descendants b)
     \<longleftrightarrow> r \<noteq> [] \<and> locate (account_separator b) [] [] (root_account b) r = Some (fn, a)"
proof -
  obtain n t p c ch where root: "root_account b = Account n t p c ch"
    by (cases "root_account b")
  let ?sep = "account_separator b"
  have tail: "set (get_descendants b) = set (walk_children ?sep [] [] 0 ch)"
    by (simp add: get_descendants_def walk_book_def root)
  show ?thesis
  proof
    assume mem: "(r, fn, a) \<in> set (get_descendants b)"
    with walk_children_locate [of r fn a ?sep "[]" "[]" 0 ch] have "r \<noteq> []"
      unfolding tail by auto
    moreover from mem have "(r, fn, a) \<in> set (walk ?sep [] [] (root_account b))"
      unfolding tail by (simp add: root)
    from walk_locate [OF this] have "locate ?sep [] [] (root_account b) r = Some (fn, a)"
      by simp
    ultimately show "r \<noteq> [] \<and> locate ?sep [] [] (root_account b) r = Some (fn, a)" ..
  next
    assume "r \<noteq> [] \<and> locate ?sep [] [] (root_account b) r = Some (fn, a)"
    then have ne: "r \<noteq> []" and loc: "locate ?sep [] [] (root_account b) r = Some (fn, a)"
      by simp_all
    from locate_walk [OF loc] have "(r, fn, a) \<in> set (walk ?sep [] [] (root_account b))"
      by simp
    with ne show "(r, fn, a) \<in> set (get_descendants b)"
      unfolding tail by (auto simp add: root)
  qed
qed

lemma locate_extends:
  assumes "extends t' t" and "locate sep p fn t r = Some (fn', a)"
  shows "\<exists>a'. locate sep p fn t' r = Some (fn', a') \<and> same_attributes a a'"
  using assms
proof (induction r arbitrary: t t' p fn)
  case Nil
  from Nil.prems(1) have "\<exists>a'. account_at t' [] = Some a' \<and> same_attributes t a'"
    unfolding extends_def by (metis account_at.simps(1))
  with Nil.prems(2) show ?case by simp
next
  case (Cons i r)
  from Cons.prems(2) have i: "i < length (acc_children t)"
    and loc: "locate sep (p @ [i]) (child_full_name sep p fn (acc_name (acc_children t ! i)))
                (acc_children t ! i) r = Some (fn', a)"
    by (auto split: if_splits)
  from i have "account_at t [i] = Some (acc_children t ! i)" by simp
  with Cons.prems(1) obtain x' where x': "account_at t' [i] = Some x'"
    and attrs: "same_attributes (acc_children t ! i) x'"
    unfolding extends_def by blast
  from x' have i': "i < length (acc_children t')" and child: "x' = acc_children t' ! i"
    by (auto split: if_splits)
  have sub: "extends (acc_children t' ! i) (acc_children t ! i)"
    unfolding extends_def
  proof (intro allI impI)
    fix q x assume "account_at (acc_children t ! i) q = Some x"
    with i have "account_at t (i # q) = Some x" by simp
    with Cons.prems(1) obtain y where "account_at t' (i # q) = Some y" "same_attributes x y"
      unfolding extends_def by blast
    with i' show "\<exists>y. account_at (acc_children t' ! i) q = Some y \<and> same_attributes x y"
      by simp
  qed
  from attrs child have name: "acc_name (acc_children t' ! i) = acc_name (acc_children t ! i)"
    by (simp add: same_attributes_def)
  from Cons.IH [OF sub loc] i' show ?case
    by (simp add: name)
qed

lemma get_descendants_cong:
  assumes "root_account b' = root_account b" and "account_separator b' = account_separator b"
  shows "get_descendants b' = get_descendants b"
  by (simp add: get_descendants_def walk_book_def assms)

lemma descendants_extends:
  assumes "extends tree' (root_account b)" and "(r, fn, a) \<in> set (get_descendants b)"
  shows "\<exists>a'. (r, fn, a') \<in> set (get_descendants (b\<lparr>root_account := tree'\<rparr>))"
  using assms(2) locate_extends [OF assms(1), of "account_separator b" "[]" "[]" r fn a]
  unfolding descendants_iff by auto

lemma lookup_by_full_name_descendant:
  assumes "lookup_by_full_name b n = Some r"
  shows "\<exists>a. (r, n, a) \<in> set (get_descendants b)"
proof -
  from assms obtain fn a where "find (\<lambda>(r, fn, a). fn = n) (get_descendants b) = Some (r, fn, a)"
    unfolding lookup_by_full_name_def by auto
  then have "(r, fn, a) \<in> set (get_descendants b)" and "fn = n"
    by (metis find_Some_iff nth_mem, auto simp add: find_Some_iff)
  then show ?thesis by blast
qed

lemma find_append:
  "find P (xs @ ys) = (case find P xs of None \<Rightarrow> find P ys | Some x \<Rightarrow> Some x)"
  by (induction xs) simp_all

lemma lookup_by_full_name_append:
  assumes "get_descendants b' = get_descendants b @ extra"
  shows "lookup_by_full_name b n = Some r \<Longrightarrow> lookup_by_full_name b' n = Some r"
    and "lookup_by_full_name b n = None \<Longrightarrow>
           lookup_by_full_name b' n = map_option fst (find (\<lambda>(r, fn, a). fn = n) extra)"
  unfolding lookup_by_full_name_def assms by (auto simp add: find_append)

lemma walk_children_append:
  "walk_children sep r fn k (cs @ [c])
     = walk_children sep r fn k cs
       @ walk sep (r @ [k + length cs]) (child_full_name sep r fn (acc_name c)) c"
  by (induction cs arbitrary: k) simp_all

lemma get_descendants_append_child:
  "get_descendants (b\<lparr>root_account := append_child_at [] new (root_account b)\<rparr>)
     = get_descendants b
       @ walk (account_separator b) [length (acc_children (root_account b))] (acc_name new) new"
  by (cases "root_account b")
    (simp add: get_descendants_def walk_book_def walk_children_append child_full_name_def)

lemma locate_append_new:
  "locate sep p0 fn0 t q = Some (fnq, x) \<Longrightarrow>
     locate sep p0 fn0 (append_child_at q new t) (q @ [length (acc_children x)])
       = Some (child_full_name sep (p0 @ q) fnq (acc_name new), new)"
proof (induction q arbitrary: p0 fn0 t)
  case Nil
  then show ?case by (cases t) auto
next
  case (Cons j q)
  obtain n ty pl c ch where t: "t = Account n ty pl c ch" by (cases t)
  from Cons.prems have j: "j < length ch"
    and loc: "locate sep (p0 @ [j]) (child_full_name sep p0 fn0 (acc_name (ch ! j))) (ch ! j) q
                = Some (fnq, x)"
    by (auto simp add: t split: if_splits)
  have name: "acc_name (append_child_at q new (ch ! j)) = acc_name (ch ! j)"
    by (cases q; cases "ch ! j") simp_all
  from Cons.IH [OF loc] j show ?case
    by (simp add: t name)
qed

lemma fold_max_bound: "a \<le> fold max xs a \<and> (\<forall>i \<in> set xs. i \<le> fold max xs (a::nat))"
proof (induction xs arbitrary: a)
  case Nil
  show ?case by simp
next
  case (Cons x xs)
  from Cons.IH [of "max x a"] show ?case by auto
qed

lemma fresh_id_new: "fresh_id b \<notin> fst ` set (transactions b)"
proof
  assume "fresh_id b \<in> fst ` set (transactions b)"
  then have "fresh_id b \<in> set (map fst (transactions b))" by simp
  with fold_max_bound [of 0 "map fst (transactions b)"]
  have "fresh_id b \<le> fold max (map fst (transactions b)) 0" by blast
  then show False by (simp add: fresh_id_def)
qed

section \<open>Opening transaction synthesizer: transactions\<close>

lemma GetCommodity_extends:
  assumes "extends (root_account b') (root_account b)"
    and "account_at (root_account b) r = Some a"
  shows "GetCommodity b' (Some r) = GetCommodity b (Some r)"
proof -
  from assms obtain a' where "account_at (root_account b') r = Some a'" "same_attributes a a'"
    unfolding extends_def by blast
  with assms(2) show ?thesis
    by (simp add: GetCommodity_def same_attributes_def)
qed

lemma opening_tx_extends:
  assumes "extends (root_account b') (root_account b)" and "price_db b' = price_db b"
    and "account_at (root_account b) account = Some a"
    and "account_at (root_account b) ea = Some e"
  shows "opening_tx b' od ea tc descr account bal = opening_tx b od ea tc descr account bal"
  unfolding opening_tx_def
  by (simp add: GetCommodity_extends [OF assms(1,3)] GetCommodity_extends [OF assms(1,4)]
      assms(2) Let_def)

lemma opening_tx_cong:
  assumes "root_account b' = root_account b" and "price_db b' = price_db b"
  shows "opening_tx b' = opening_tx b"
  by (intro ext) (simp add: opening_tx_def GetCommodity_def assms Let_def)

lemma opening_transaction_result:
  "\<exists>account tree'.
     opening_transaction ea tc od (JString descr) name bal b
       = Inr (b\<lparr>root_account := tree',
               transactions := transactions b @
                 [(fresh_id b, opening_tx (b\<lparr>root_account := tree'\<rparr>) od ea tc descr account bal)]\<rparr>)
     \<and> extends tree' (root_account b)
     \<and> (\<exists>a. account_at tree' account = Some a)
     \<and> (\<exists>a. (account, name, a) \<in> set (get_descendants (b\<lparr>root_account := tree'\<rparr>)))
     \<and> lookup_by_full_name (b\<lparr>root_account := tree'\<rparr>) name = Some account
     \<and> (\<exists>extra. get_descendants (b\<lparr>root_account := tree'\<rparr>) = get_descendants b @ extra)
     \<and> (\<forall>r. lookup_by_full_name b name = Some r \<longrightarrow> account = r \<and> tree' = root_account b)"
proof (cases "lookup_by_full_name b name")
  case (Some r)
  from lookup_by_full_name_valid [OF Some] obtain a
    where valid: "account_at (root_account b) r = Some a" ..
  from lookup_by_full_name_descendant [OF Some]
  have named: "\<exists>a. (r, name, a) \<in> set (get_descendants (b\<lparr>root_account := root_account b\<rparr>))"
    by simp
  have "opening_transaction ea tc od (JString descr) name bal b
       = Inr (b\<lparr>root_account := root_account b,
               transactions := transactions b @
                 [(fresh_id b,
                   opening_tx (b\<lparr>root_account := root_account b\<rparr>) od ea tc descr r bal)]\<rparr>)"
    by (simp add: opening_transaction_def Some new_Split_def new_Transaction_def
        CommitEdit_def opening_tx_def Let_def)
  with named show ?thesis
    apply (intro exI [where x = r] exI [where x = "root_account b"])
    apply (simp add: valid Some extends_refl)
    done
next
  case None
  let ?new = "SetName name new_Account"
  let ?tree = "append_child_at [] ?new (root_account b)"
  let ?account = "[length (acc_children (root_account b))]"
  have fresh: "fresh_id (b\<lparr>root_account := ?tree\<rparr>) = fresh_id b"
    by (simp add: fresh_id_def)
  have "(?account, name, ?new) \<in> set (get_descendants (b\<lparr>root_account := ?tree\<rparr>))"
    unfolding descendants_iff
    using locate_append_new [of "account_separator b" "[]" "[]" "root_account b" "[]" "[]"
        "root_account b" ?new]
    by (simp add: child_full_name_def new_Account_def)
  then have named:
    "\<exists>a. (?account, name, a) \<in> set (get_descendants (b\<lparr>root_account := ?tree\<rparr>))" ..
  have "opening_transaction ea tc od (JString descr) name bal b
       = Inr (b\<lparr>root_account := ?tree,
               transactions := transactions b @
                 [(fresh_id b, opening_tx (b\<lparr>root_account := ?tree\<rparr>) od ea tc descr ?account bal)]\<rparr>)"
    by (simp add: opening_transaction_def None append_child_def new_Split_def
        new_Transaction_def CommitEdit_def opening_tx_def fresh Let_def)
  moreover have "account_at ?tree ?account = Some ?new"
    using append_child_at_new [of "root_account b" "[]" "root_account b" ?new] by simp
  moreover note named
  moreover have grown: "get_descendants (b\<lparr>root_account := ?tree\<rparr>)
      = get_descendants b @ [(?account, name, ?new)]"
    unfolding get_descendants_append_child by (simp add: new_Account_def)
  moreover have "lookup_by_full_name (b\<lparr>root_account := ?tree\<rparr>) name = Some ?account"
    unfolding lookup_by_full_name_append(2) [OF grown None] by simp
  ultimately show ?thesis
    apply (intro exI [where x = ?account] exI [where x = ?tree])
    apply (simp add: None append_child_at_extends)
    done
qed

lemma opening_loop_result:
  assumes "\<exists>e. account_at (root_account b) ea = Some e"
  shows "\<exists>tree' new.
     opening_loop ea tc od (JString descr) entries b
       = Inr (b\<lparr>root_account := tree', transactions := transactions b @ new\<rparr>)
     \<and> extends tree' (root_account b)
     \<and> list_all2
         (\<lambda>entry p. \<exists>account. (\<exists>a. account_at tree' account = Some a)
            \<and> (\<exists>a. (account, fst entry, a) \<in> set (get_descendants (b\<lparr>root_account := tree'\<rparr>)))
            \<and> lookup_by_full_name (b\<lparr>root_account := tree'\<rparr>) (fst entry) = Some account
            \<and> snd p = opening_tx (b\<lparr>root_account := tree'\<rparr>) od ea tc descr account (snd entry))
         (filter (\<lambda>entry. snd entry \<noteq> 0) entries) new
     \<and> distinct (map fst new)
     \<and> fst ` set new \<inter> fst ` set (transactions b) = {}
     \<and> (\<exists>extra. get_descendants (b\<lparr>root_account := tree'\<rparr>) = get_descendants b @ extra)"
  using assms
proof (induction entries arbitrary: b)
  case Nil
  show ?case
    apply (rule exI [where x = "root_account b"])
    apply (rule exI [where x = "[]"])
    apply (simp add: extends_refl)
    done
next
  case (Cons entry entries)
  obtain name bal where entry: "entry = (name, bal)" by (cases entry)
  from Cons.prems obtain e where e: "account_at (root_account b) ea = Some e" ..
  show ?case
  proof (cases "bal = 0")
    case True
    from Cons.IH [OF Cons.prems] show ?thesis
      by (simp add: entry True)
  next
    case False
    from opening_transaction_result [of ea tc od descr name bal b]
    obtain account t1 where step: "opening_transaction ea tc od (JString descr) name bal b
        = Inr (b\<lparr>root_account := t1,
                 transactions := transactions b @
                   [(fresh_id b, opening_tx (b\<lparr>root_account := t1\<rparr>) od ea tc descr account bal)]\<rparr>)"
      and ext1: "extends t1 (root_account b)"
      and acc1: "\<exists>a. account_at t1 account = Some a"
      and named1: "\<exists>a. (account, name, a) \<in> set (get_descendants (b\<lparr>root_account := t1\<rparr>))"
      and found1: "lookup_by_full_name (b\<lparr>root_account := t1\<rparr>) name = Some account"
      and grown1: "\<exists>extra. get_descendants (b\<lparr>root_account := t1\<rparr>) = get_descendants b @ extra"
      by (elim exE conjE) (rule that; (assumption | blast))
    let ?tx = "opening_tx (b\<lparr>root_account := t1\<rparr>) od ea tc descr account bal"
    let ?b1 = "b\<lparr>root_account := t1, transactions := transactions b @ [(fresh_id b, ?tx)]\<rparr>"
    from ext1 e obtain e1 where e1: "account_at t1 ea = Some e1"
      unfolding extends_def by blast
    then have "\<exists>e. account_at (root_account ?b1) ea = Some e" by simp
    from Cons.IH [OF this] obtain t2 new
      where rest: "opening_loop ea tc od (JString descr) entries ?b1
          = Inr (?b1\<lparr>root_account := t2, transactions := transactions ?b1 @ new\<rparr>)"
        and ext2: "extends t2 (root_account ?b1)"
        and all: "list_all2
           (\<lambda>entry p. \<exists>account. (\<exists>a. account_at t2 account = Some a)
              \<and> (\<exists>a. (account, fst entry, a)
                        \<in> set (get_descendants (?b1\<lparr>root_account := t2\<rparr>)))
              \<and> lookup_by_full_name (?b1\<lparr>root_account := t2\<rparr>) (fst entry) = Some account
              \<and> snd p = opening_tx (?b1\<lparr>root_account := t2\<rparr>) od ea tc descr account (snd entry))
           (filter (\<lambda>entry. snd entry \<noteq> 0) entries) new"
        and dist: "distinct (map fst new)"
        and disj: "fst ` set new \<inter> fst ` set (transactions ?b1) = {}"
        and grown2: "\<exists>extra. get_descendants (?b1\<lparr>root_account := t2\<rparr>)
                               = get_descendants ?b1 @ extra"
      by (elim exE conjE) (rule that; (assumption | blast))
    have ext2': "extends t2 t1" using ext2 by simp
    have same: "opening_tx (?b1\<lparr>root_account := t2\<rparr>) = opening_tx (b\<lparr>root_account := t2\<rparr>)"
      by (rule opening_tx_cong) simp_all
    have same_names:
      "get_descendants (?b1\<lparr>root_account := t2\<rparr>) = get_descendants (b\<lparr>root_account := t2\<rparr>)"
      by (rule get_descendants_cong) simp_all
    have same_lookup:
      "lookup_by_full_name (?b1\<lparr>root_account := t2\<rparr>)
         = lookup_by_full_name (b\<lparr>root_account := t2\<rparr>)"
      by (intro ext) (unfold lookup_by_full_name_def same_names, rule refl)
    have names1: "get_descendants ?b1 = get_descendants (b\<lparr>root_account := t1\<rparr>)"
      by (rule get_descendants_cong) simp_all
    from grown2 obtain extra2
      where extra2: "get_descendants (b\<lparr>root_account := t2\<rparr>)
                       = get_descendants (b\<lparr>root_account := t1\<rparr>) @ extra2"
      unfolding same_names names1 ..
    from lookup_by_full_name_append(1) [OF extra2 found1]
    have found2: "lookup_by_full_name (b\<lparr>root_account := t2\<rparr>) name = Some account" .
    from grown1 extra2
    have grown: "\<exists>extra. get_descendants (b\<lparr>root_account := t2\<rparr>) = get_descendants b @ extra"
      by auto
    from acc1 obtain a1 where a1: "account_at t1 account = Some a1" ..
    with ext2' obtain a2 where "account_at t2 account = Some a2"
      unfolding extends_def by blast
    then have acc2: "\<exists>a. account_at t2 account = Some a" ..
    from named1 obtain x1
      where "(account, name, x1) \<in> set (get_descendants (b\<lparr>root_account := t1\<rparr>))" ..
    from descendants_extends [of t2 "b\<lparr>root_account := t1\<rparr>", OF _ this] ext2'
    have named2: "\<exists>a. (account, name, a) \<in> set (get_descendants (b\<lparr>root_account := t2\<rparr>))"
      by simp
    have head: "?tx = opening_tx (b\<lparr>root_account := t2\<rparr>) od ea tc descr account bal"
      using opening_tx_extends [of "b\<lparr>root_account := t2\<rparr>" "b\<lparr>root_account := t1\<rparr>"
          account a1 ea e1 od tc descr bal] ext2' a1 e1
      by simp
    from acc2 named2 found2 head
    have first: "\<exists>account. (\<exists>a. account_at t2 account = Some a)
            \<and> (\<exists>a. (account, name, a) \<in> set (get_descendants (b\<lparr>root_account := t2\<rparr>)))
            \<and> lookup_by_full_name (b\<lparr>root_account := t2\<rparr>) name = Some account
            \<and> ?tx = opening_tx (b\<lparr>root_account := t2\<rparr>) od ea tc descr account bal"
      by - (rule exI [where x = account], intro conjI; assumption)
    let ?new = "(fresh_id b, ?tx) # new"
    have "opening_loop ea tc od (JString descr) (entry # entries) b
        = Inr (b\<lparr>root_account := t2, transactions := transactions b @ ?new\<rparr>)"
      using False by (simp add: entry step rest)
    moreover have "extends t2 (root_account b)"
      using extends_trans [OF ext2' ext1] .
    moreover have "list_all2
         (\<lambda>entry p. \<exists>account. (\<exists>a. account_at t2 account = Some a)
            \<and> (\<exists>a. (account, fst entry, a) \<in> set (get_descendants (b\<lparr>root_account := t2\<rparr>)))
            \<and> lookup_by_full_name (b\<lparr>root_account := t2\<rparr>) (fst entry) = Some account
            \<and> snd p = opening_tx (b\<lparr>root_account := t2\<rparr>) od ea tc descr account (snd entry))
         (filter (\<lambda>entry. snd entry \<noteq> 0) (entry # entries)) ?new"
      using False all first unfolding same same_names same_lookup by (simp add: entry)
    moreover have "distinct (map fst ?new)"
      using dist disj by auto
    moreover have "fst ` set ?new \<inter> fst ` set (transactions b) = {}"
      using disj fresh_id_new [of b] by auto
    moreover note grown
    ultimately show ?thesis
      by - (rule exI [where x = t2], rule exI [where x = ?new], intro conjI; assumption)
  qed
qed

lemma lookup_or_append:
  assumes pair: "(case lookup_by_full_name b n of
                    Some account \<Rightarrow> (account, b)
                  | None \<Rightarrow> append_child parent new b) = (r, b')"
    and parent: "\<exists>a. account_at (root_account b) parent = Some a"
  shows "extends (root_account b') (root_account b)"
    and "b' = b\<lparr>root_account := root_account b'\<rparr>"
    and "\<exists>a. account_at (root_account b') r = Some a"
    and "\<And>r0. lookup_by_full_name b n = Some r0 \<Longrightarrow> r = r0 \<and> b' = b"
    and "lookup_by_full_name b n = None \<Longrightarrow> b' = snd (append_child parent new b)"
proof -
  show "\<And>r0. lookup_by_full_name b n = Some r0 \<Longrightarrow> r = r0 \<and> b' = b"
    using pair by simp
  show "lookup_by_full_name b n = None \<Longrightarrow> b' = snd (append_child parent new b)"
    using pair by simp
  show "extends (root_account b') (root_account b)"
    using pair
    by (cases "lookup_by_full_name b n")
      (auto simp add: append_child_def extends_refl append_child_at_extends)
  show "b' = b\<lparr>root_account := root_account b'\<rparr>"
    using pair by (cases "lookup_by_full_name b n") (auto simp add: append_child_def)
  show "\<exists>a. account_at (root_account b') r = Some a"
  proof (cases "lookup_by_full_name b n")
    case (Some r0)
    with pair lookup_by_full_name_valid [OF Some] show ?thesis by simp
  next
    case None
    from parent obtain a where a: "account_at (root_account b) parent = Some a" ..
    from None pair have "r = parent @ [length (acc_children a)]"
      and "root_account b' = append_child_at parent new (root_account b)"
      by (auto simp add: append_child_def a)
    with append_child_at_new [OF a, of new] show ?thesis by simp
  qed
qed

lemma lookup_or_append_name:
  assumes pair: "(case lookup_by_full_name b n of
                    Some account \<Rightarrow> (account, b)
                  | None \<Rightarrow> append_child parent new b) = (r, b')"
    and parent: "locate (account_separator b) [] [] (root_account b) parent = Some (pfn, pa)"
  shows "\<exists>fn a. (r, fn, a) \<in> set (get_descendants b')
           \<and> (fn = n \<or> fn = child_full_name (account_separator b) parent pfn (acc_name new))"
proof (cases "lookup_by_full_name b n")
  case (Some r0)
  with pair have "r = r0" "b' = b" by simp_all
  with lookup_by_full_name_descendant [OF Some] show ?thesis by blast
next
  case None
  from locate_account_at [OF parent] have pa: "account_at (root_account b) parent = Some pa" .
  from None pair have r: "r = parent @ [length (acc_children pa)]"
    and b': "b' = b\<lparr>root_account := append_child_at parent new (root_account b)\<rparr>"
    by (auto simp add: append_child_def pa)
  from locate_append_new [OF parent, of new]
  have "(r, child_full_name (account_separator b) parent pfn (acc_name new), new)
          \<in> set (get_descendants b')"
    unfolding descendants_iff by (simp add: r b')
  then show ?thesis by blast
qed

lemma equity_accounts_result:
  "\<exists>ep ea tree'.
     equity_accounts (JString en) (JString eon) (JString cur) b
       = Inr (lookup (commodity_table b) ''CURRENCY'' cur, ep, ea, b\<lparr>root_account := tree'\<rparr>)
     \<and> extends tree' (root_account b)
     \<and> (\<exists>a. account_at tree' ea = Some a)
     \<and> (\<exists>fn a. (ea, fn, a) \<in> set (get_descendants (b\<lparr>root_account := tree'\<rparr>))
           \<and> (fn = en @ ''.'' @ eon \<or> fn = en @ account_separator b @ eon))
     \<and> (\<forall>r. lookup_by_full_name b en = Some r \<longrightarrow> ep = r
           \<and> (\<forall>r'. lookup_by_full_name b (en @ ''.'' @ eon) = Some r' \<longrightarrow>
                 ea = r' \<and> tree' = root_account b))
     \<and> (lookup_by_full_name b en = None \<longrightarrow>
          (\<forall>r'. lookup_by_full_name
                  (snd (append_child []
                     (SetPlaceholder True (SetType ACCT_TYPE_EQUITY (SetName en new_Account))) b))
                  (en @ ''.'' @ eon) = Some r' \<longrightarrow>
             ea = r'
             \<and> b\<lparr>root_account := tree'\<rparr>
                 = snd (append_child []
                     (SetPlaceholder True (SetType ACCT_TYPE_EQUITY (SetName en new_Account)))
                     b)))"
proof -
  let ?tc = "lookup (commodity_table b) ''CURRENCY'' cur"
  let ?ph = "SetPlaceholder True (SetType ACCT_TYPE_EQUITY (SetName en new_Account))"
  let ?ob = "SetCommodity ?tc (SetType ACCT_TYPE_EQUITY (SetName eon new_Account))"
  obtain ep b1 where first:
    "(case lookup_by_full_name b en of
        Some account \<Rightarrow> (account, b) | None \<Rightarrow> append_child [] ?ph b) = (ep, b1)"
    by fastforce
  have root: "\<exists>a. account_at (root_account b) [] = Some a" by simp
  note f = lookup_or_append [OF first root]
  obtain ea b2 where second:
    "(case lookup_by_full_name b1 (en @ ''.'' @ eon) of
        Some account \<Rightarrow> (account, b1) | None \<Rightarrow> append_child ep ?ob b1) = (ea, b2)"
    by fastforce
  note s = lookup_or_append [OF second f(3)]
  have run: "equity_accounts (JString en) (JString eon) (JString cur) b = Inr (?tc, ep, ea, b2)"
    by (simp add: equity_accounts_def first second [simplified] Let_def)
  have "b2 = b1\<lparr>root_account := root_account b2\<rparr>"
    by (rule s(2))
  also have "\<dots> = (b\<lparr>root_account := root_account b1\<rparr>)\<lparr>root_account := root_account b2\<rparr>"
    using f(2) by simp
  also have "\<dots> = b\<lparr>root_account := root_account b2\<rparr>"
    by simp
  finally have b2: "b2 = b\<lparr>root_account := root_account b2\<rparr>" .
  have run': "equity_accounts (JString en) (JString eon) (JString cur) b
                = Inr (?tc, ep, ea, b\<lparr>root_account := root_account b2\<rparr>)"
    using run b2 by simp
  have ext: "extends (root_account b2) (root_account b)"
    using extends_trans [OF s(1) f(1)] .
  have sep1: "account_separator b1 = account_separator b"
    by (subst f(2)) simp
  have "locate (account_separator b) [] [] (root_account b) [] = Some ([], root_account b)"
    by simp
  from lookup_or_append_name [OF first this]
  obtain x where "(ep, en, x) \<in> set (get_descendants b1)"
    by (auto simp add: child_full_name_def new_Account_def)
  then have ep: "ep \<noteq> []"
    and loc: "locate (account_separator b1) [] [] (root_account b1) ep = Some (en, x)"
    unfolding descendants_iff by simp_all
  from lookup_or_append_name [OF second loc]
  obtain fn y where mem: "(ea, fn, y) \<in> set (get_descendants b2)"
    and fn: "fn = en @ ''.'' @ eon \<or> fn = en @ account_separator b @ eon"
    using ep by (auto simp add: child_full_name_def new_Account_def sep1)
  from mem have "(ea, fn, y) \<in> set (get_descendants (b\<lparr>root_account := root_account b2\<rparr>))"
    using b2 by simp
  with fn have named:
    "\<exists>fn a. (ea, fn, a) \<in> set (get_descendants (b\<lparr>root_account := root_account b2\<rparr>))
       \<and> (fn = en @ ''.'' @ eon \<or> fn = en @ account_separator b @ eon)"
    by blast
  have found: "\<forall>r. lookup_by_full_name b en = Some r \<longrightarrow> ep = r
           \<and> (\<forall>r'. lookup_by_full_name b (en @ ''.'' @ eon) = Some r' \<longrightarrow>
                 ea = r' \<and> root_account b2 = root_account b)"
  proof (intro allI impI conjI)
    fix r assume r: "lookup_by_full_name b en = Some r"
    from f(4) [OF r] show "ep = r" by simp
    fix r' assume r': "lookup_by_full_name b (en @ ''.'' @ eon) = Some r'"
    from f(4) [OF r] have "b1 = b" by simp
    with s(4) [of r'] r' show "ea = r'" and "root_account b2 = root_account b"
      by simp_all
  qed
  have created: "lookup_by_full_name b en = None \<longrightarrow>
          (\<forall>r'. lookup_by_full_name (snd (append_child [] ?ph b)) (en @ ''.'' @ eon) = Some r'
             \<longrightarrow> ea = r' \<and> b\<lparr>root_account := root_account b2\<rparr> = snd (append_child [] ?ph b))"
  proof (intro allI impI)
    fix r' assume none: "lookup_by_full_name b en = None"
      and r': "lookup_by_full_name (snd (append_child [] ?ph b)) (en @ ''.'' @ eon) = Some r'"
    from f(5) [OF none] have b1: "b1 = snd (append_child [] ?ph b)" .
    from s(4) [of r'] r' have "ea = r'" and "b2 = b1"
      unfolding b1 by simp_all
    with b1 b2 show "ea = r' \<and> b\<lparr>root_account := root_account b2\<rparr> = snd (append_child [] ?ph b)"
      by simp
  qed
  from run' ext s(3) named found created show ?thesis
    by - (rule exI [where x = ep], rule exI [where x = ea],
          rule exI [where x = "root_account b2"], intro conjI; assumption)
qed

lemma synthesize_result:
  "\<exists>ea tree' new.
     synthesize b entries od (JString en) (JString eon) (JString descr) (JString cur)
       = Inr (b\<lparr>root_account := tree', transactions := transactions b @ new\<rparr>)
     \<and> extends tree' (root_account b)
     \<and> (\<exists>a. account_at tree' ea = Some a)
     \<and> (\<exists>fn a. (ea, fn, a) \<in> set (get_descendants (b\<lparr>root_account := tree'\<rparr>))
           \<and> (fn = en @ ''.'' @ eon \<or> fn = en @ account_separator b @ eon))
     \<and> list_all2
         (\<lambda>entry p. \<exists>account. (\<exists>a. account_at tree' account = Some a)
            \<and> (\<exists>a. (account, fst entry, a) \<in> set (get_descendants (b\<lparr>root_account := tree'\<rparr>)))
            \<and> lookup_by_full_name (b\<lparr>root_account := tree'\<rparr>) (fst entry) = Some account
            \<and> snd p = opening_tx (b\<lparr>root_account := tree'\<rparr>) od ea
                        (lookup (commodity_table b) ''CURRENCY'' cur) descr account (snd entry))
         (filter (\<lambda>entry. snd entry \<noteq> 0) entries) new
     \<and> distinct (map fst new)
     \<and> fst ` set new \<inter> fst ` set (transactions b) = {}
     \<and> (\<forall>r r'. lookup_by_full_name b en = Some r \<longrightarrow>
           lookup_by_full_name b (en @ ''.'' @ eon) = Some r' \<longrightarrow> ea = r')"
proof -
  let ?tc = "lookup (commodity_table b) ''CURRENCY'' cur"
  from equity_accounts_result [of en eon cur b] obtain ep ea t1 fn x
    where eq: "equity_accounts (JString en) (JString eon) (JString cur) b
                 = Inr (?tc, ep, ea, b\<lparr>root_account := t1\<rparr>)"
      and ext1: "extends t1 (root_account b)"
      and ea1: "\<exists>a. account_at t1 ea = Some a"
      and mem1: "(ea, fn, x) \<in> set (get_descendants (b\<lparr>root_account := t1\<rparr>))"
      and fn: "fn = en @ ''.'' @ eon \<or> fn = en @ account_separator b @ eon"
      and reuse: "\<forall>r. lookup_by_full_name b en = Some r \<longrightarrow> ep = r
           \<and> (\<forall>r'. lookup_by_full_name b (en @ ''.'' @ eon) = Some r' \<longrightarrow>
                 ea = r' \<and> t1 = root_account b)"
    by (elim exE conjE) (rule that; (assumption | blast))
  let ?b1 = "b\<lparr>root_account := t1\<rparr>"
  from ea1 have "\<exists>e. account_at (root_account ?b1) ea = Some e" by simp
  from opening_loop_result [OF this, of ?tc od descr entries] obtain t2 new
    where loop: "opening_loop ea ?tc od (JString descr) entries ?b1
                   = Inr (?b1\<lparr>root_account := t2, transactions := transactions ?b1 @ new\<rparr>)"
      and ext2: "extends t2 (root_account ?b1)"
      and all: "list_all2
         (\<lambda>entry p. \<exists>account. (\<exists>a. account_at t2 account = Some a)
            \<and> (\<exists>a. (account, fst entry, a) \<in> set (get_descendants (?b1\<lparr>root_account := t2\<rparr>)))
            \<and> lookup_by_full_name (?b1\<lparr>root_account := t2\<rparr>) (fst entry) = Some account
            \<and> snd p = opening_tx (?b1\<lparr>root_account := t2\<rparr>) od ea ?tc descr account (snd entry))
         (filter (\<lambda>entry. snd entry \<noteq> 0) entries) new"
      and dist: "distinct (map fst new)"
      and disj: "fst ` set new \<inter> fst ` set (transactions ?b1) = {}"
    by (elim exE conjE) (rule that; assumption)
  have same: "opening_tx (?b1\<lparr>root_account := t2\<rparr>) = opening_tx (b\<lparr>root_account := t2\<rparr>)"
    by (rule opening_tx_cong) simp_all
  have same_names:
    "get_descendants (?b1\<lparr>root_account := t2\<rparr>) = get_descendants (b\<lparr>root_account := t2\<rparr>)"
    by (rule get_descendants_cong) simp_all
  have same_lookup:
    "lookup_by_full_name (?b1\<lparr>root_account := t2\<rparr>)
       = lookup_by_full_name (b\<lparr>root_account := t2\<rparr>)"
    by (intro ext) (unfold lookup_by_full_name_def same_names, rule refl)
  have run: "synthesize b entries od (JString en) (JString eon) (JString descr) (JString cur)
       = Inr (b\<lparr>root_account := t2, transactions := transactions b @ new\<rparr>)"
    by (simp add: synthesize_def eq loop)
  have ext: "extends t2 (root_account b)"
    using extends_trans [OF _ ext1, of t2] ext2 by simp
  from ea1 ext2 have ea2: "\<exists>a. account_at t2 ea = Some a"
    unfolding extends_def by auto
  from descendants_extends [of t2 ?b1, OF ext2 mem1]
  obtain y where "(ea, fn, y) \<in> set (get_descendants (b\<lparr>root_account := t2\<rparr>))"
    by auto
  with fn have named:
    "\<exists>fn a. (ea, fn, a) \<in> set (get_descendants (b\<lparr>root_account := t2\<rparr>))
       \<and> (fn = en @ ''.'' @ eon \<or> fn = en @ account_separator b @ eon)"
    by blast
  have all': "list_all2
         (\<lambda>entry p. \<exists>account. (\<exists>a. account_at t2 account = Some a)
            \<and> (\<exists>a. (account, fst entry, a) \<in> set (get_descendants (b\<lparr>root_account := t2\<rparr>)))
            \<and> lookup_by_full_name (b\<lparr>root_account := t2\<rparr>) (fst entry) = Some account
            \<and> snd p = opening_tx (b\<lparr>root_account := t2\<rparr>) od ea ?tc descr account (snd entry))
         (filter (\<lambda>entry. snd entry \<noteq> 0) entries) new"
    using all unfolding same same_names same_lookup .
  have disj': "fst ` set new \<inter> fst ` set (transactions b) = {}"
    using disj by simp
  have reuse': "\<forall>r r'. lookup_by_full_name b en = Some r \<longrightarrow>
           lookup_by_full_name b (en @ ''.'' @ eon) = Some r' \<longrightarrow> ea = r'"
    using reuse by blast
  from run ext ea2 named all' dist disj' reuse' show ?thesis
    by - (rule exI [where x = ea], rule exI [where x = t2], rule exI [where x = new],
          intro conjI; assumption)
qed

lemma nonzero_entries:
  "filter (\<lambda>(name, balance). balance \<noteq> (0::rat)) entries
     = filter (\<lambda>entry. snd entry \<noteq> 0) entries"
  by (induction entries) auto

lemma ex_synthesize:
  "synthesize ex_new_book ex_balances ex_date (JString ''Equity'') (JString ''Opening Balances'')
     (JString ''Opening balance'') (JString ''EUR'') = Inr ex_opening_book"
  by (simp add: synthesize_def equity_accounts_def lookup_by_full_name_def get_descendants_def
      walk_book_def ex_new_book_def ex_book_def ex_root_def child_full_name_def lookup_def
      EUR_def USD_def append_child_def new_Account_def ex_balances_def opening_transaction_def
      new_Split_def new_Transaction_def CommitEdit_def fresh_id_def GetCommodity_def ex_date_def
      ex_opening_book_def Let_def)

lemma opening_tx_entry:
  assumes "lookup_by_full_name B name = Some account"
  shows "\<exists>account' asset equity.
            lookup_by_full_name B name = Some account'
            \<and> tx_splits (opening_tx B od ea tc descr account balance) = [asset, equity]
            \<and> split_account asset = Some account'
            \<and> split_account equity = Some ea
            \<and> split_amount asset = balance
            \<and> split_value asset
                = (if GetCommodity B (Some account') = GetCommodity B (Some ea)
                   then balance
                   else price_db B balance (GetCommodity B (Some account'))
                          (GetCommodity B (Some ea)) od)
            \<and> split_amount equity = - split_value asset
            \<and> split_value equity = - split_value asset
            \<and> tx_description (opening_tx B od ea tc descr account balance) = descr
            \<and> tx_currency (opening_tx B od ea tc descr account balance) = tc
            \<and> tx_date (opening_tx B od ea tc descr account balance)
                = Some (dt_day od, dt_month od, dt_year od)"
  using assms by - (rule exI [where x = account], simp add: opening_tx_def Let_def)

lemma synthesize_splits:
  "\<exists>b' ea new.
     synthesize b balances od (JString en) (JString eon) (JString descr) (JString cur) = Inr b'
     \<and> transactions b' = transactions b @ new
     \<and> price_db b' = price_db b
     \<and> distinct (map fst new)
     \<and> fst ` set new \<inter> fst ` set (transactions b) = {}
     \<and> (\<exists>fn a. (ea, fn, a) \<in> set (get_descendants b')
           \<and> (fn = en @ ''.'' @ eon \<or> fn = en @ account_separator b @ eon))
     \<and> list_all2
         (\<lambda>(name, balance) (i, t). \<exists>account asset equity.
            lookup_by_full_name b' name = Some account
            \<and> tx_splits t = [asset, equity]
            \<and> split_account asset = Some account
            \<and> split_account equity = Some ea
            \<and> split_amount asset = balance
            \<and> split_value asset
                = (if GetCommodity b' (Some account) = GetCommodity b' (Some ea)
                   then balance
                   else price_db b' balance (GetCommodity b' (Some account))
                          (GetCommodity b' (Some ea)) od)
            \<and> split_amount equity = - split_value asset
            \<and> split_value equity = - split_value asset
            \<and> tx_description t = descr
            \<and> tx_currency t = lookup (commodity_table b) ''CURRENCY'' cur
            \<and> tx_date t = Some (dt_day od, dt_month od, dt_year od))
         (filter (\<lambda>(name, balance). balance \<noteq> 0) balances) new"
proof -
  let ?tc = "lookup (commodity_table b) ''CURRENCY'' cur"
  from synthesize_result [of b balances od en eon descr cur] obtain ea tree' new
    where run: "synthesize b balances od (JString en) (JString eon) (JString descr) (JString cur)
                  = Inr (b\<lparr>root_account := tree', transactions := transactions b @ new\<rparr>)"
      and ea: "\<exists>fn a. (ea, fn, a) \<in> set (get_descendants (b\<lparr>root_account := tree'\<rparr>))
                 \<and> (fn = en @ ''.'' @ eon \<or> fn = en @ account_separator b @ eon)"
      and all: "list_all2
         (\<lambda>entry p. \<exists>account. (\<exists>a. account_at tree' account = Some a)
            \<and> (\<exists>a. (account, fst entry, a) \<in> set (get_descendants (b\<lparr>root_account := tree'\<rparr>)))
            \<and> lookup_by_full_name (b\<lparr>root_account := tree'\<rparr>) (fst entry) = Some account
            \<and> snd p = opening_tx (b\<lparr>root_account := tree'\<rparr>) od ea ?tc descr account (snd entry))
         (filter (\<lambda>entry. snd entry \<noteq> 0) balances) new"
      and dist: "distinct (map fst new)"
      and disj: "fst ` set new \<inter> fst ` set (transactions b) = {}"
    by (elim exE conjE) (rule that; (assumption | blast))
  define b' where "b' = b\<lparr>root_account := tree', transactions := transactions b @ new\<rparr>"
  have txs: "transactions b' = transactions b @ new" and prices: "price_db b' = price_db b"
    by (simp_all add: b'_def)
  have same: "opening_tx (b\<lparr>root_account := tree'\<rparr>) = opening_tx b'"
    by (rule opening_tx_cong [symmetric]) (simp_all add: b'_def)
  have same_names: "get_descendants (b\<lparr>root_account := tree'\<rparr>) = get_descendants b'"
    by (rule get_descendants_cong [symmetric]) (simp_all add: b'_def)
  have same_lookup: "lookup_by_full_name (b\<lparr>root_account := tree'\<rparr>) = lookup_by_full_name b'"
    by (intro ext) (unfold lookup_by_full_name_def same_names, rule refl)
  have shape: "list_all2
         (\<lambda>(name, balance) (i, t). \<exists>account asset equity.
            lookup_by_full_name b' name = Some account
            \<and> tx_splits t = [asset, equity]
            \<and> split_account asset = Some account
            \<and> split_account equity = Some ea
            \<and> split_amount asset = balance
            \<and> split_value asset
                = (if GetCommodity b' (Some account) = GetCommodity b' (Some ea)
                   then balance
                   else price_db b' balance (GetCommodity b' (Some account))
                          (GetCommodity b' (Some ea)) od)
            \<and> split_amount equity = - split_value asset
            \<and> split_value equity = - split_value asset
            \<and> tx_description t = descr
            \<and> tx_currency t = ?tc
            \<and> tx_date t = Some (dt_day od, dt_month od, dt_year od))
         (filter (\<lambda>(name, balance). balance \<noteq> 0) balances) new"
    unfolding nonzero_entries
  proof (rule list_all2_mono [OF all])
    fix entry :: "string \<times> rat" and p :: "nat \<times> transaction"
    obtain name balance where entry: "entry = (name, balance)" by (cases entry)
    obtain i t where p: "p = (i, t)" by (cases p)
    assume "\<exists>account. (\<exists>a. account_at tree' account = Some a)
            \<and> (\<exists>a. (account, fst entry, a) \<in> set (get_descendants (b\<lparr>root_account := tree'\<rparr>)))
            \<and> lookup_by_full_name (b\<lparr>root_account := tree'\<rparr>) (fst entry) = Some account
            \<and> snd p = opening_tx (b\<lparr>root_account := tree'\<rparr>) od ea ?tc descr account (snd entry)"
    then obtain account where named: "lookup_by_full_name b' name = Some account"
      and t: "t = opening_tx b' od ea ?tc descr account balance"
      unfolding same same_names same_lookup entry p fst_conv snd_conv by blast
    show "(case entry of (name, balance) \<Rightarrow> \<lambda>(i, t). \<exists>account asset equity.
            lookup_by_full_name b' name = Some account
            \<and> tx_splits t = [asset, equity]
            \<and> split_account asset = Some account
            \<and> split_account equity = Some ea
            \<and> split_amount asset = balance
            \<and> split_value asset
                = (if GetCommodity b' (Some account) = GetCommodity b' (Some ea)
                   then balance
                   else price_db b' balance (GetCommodity b' (Some account))
                          (GetCommodity b' (Some ea)) od)
            \<and> split_amount equity = - split_value asset
            \<and> split_value equity = - split_value asset
            \<and> tx_description t = descr
            \<and> tx_currency t = ?tc
            \<and> tx_date t = Some (dt_day od, dt_month od, dt_year od)) p"
      unfolding entry p prod.case t by (rule opening_tx_entry [OF named])
  qed
  from ea have ea': "\<exists>fn a. (ea, fn, a) \<in> set (get_descendants b')
                 \<and> (fn = en @ ''.'' @ eon \<or> fn = en @ account_separator b @ eon)"
    unfolding same_names .
  from run have run': "synthesize b balances od (JString en) (JString eon) (JString descr)
                         (JString cur) = Inr b'"
    unfolding b'_def .
  from run' txs prices dist disj ea' shape show ?thesis
    by - (rule exI [where x = b'], rule exI [where x = ea], rule exI [where x = new],
          intro conjI; assumption)
qed

text \<open>
  C1. Given string configuration values the synthesizer succeeds, and the transactions of
  the resulting book are the old ones followed by the created ones, which correspond one
  to one, in order, to the snapshot entries with a nonzero balance; an entry with balance
  zero has no transaction. The created transactions have pairwise different identifiers,
  none of them used before. Each has exactly two splits: the first on the account that the
  lookup by full name finds in the resulting book under the name of its entry, with the
  balance of the entry as amount and the equity value as value; the second on the equity
  opening-balances account (an account whose full name is the equity name and the
  opening-balances name, joined by a dot or by the separator of the book), with the negated
  equity value as value; so the two values sum to zero. The equity value is the balance when
  the two accounts have the same commodity, and otherwise what the price database makes of
  the balance.
\<close>

theorem synthesize_one_transaction_per_balance:
  "\<exists>b' ea new.
     synthesize b balances od (JString en) (JString eon) (JString descr) (JString cur) = Inr b'
     \<and> transactions b' = transactions b @ new
     \<and> length new = length (filter (\<lambda>(name, balance). balance \<noteq> 0) balances)
     \<and> distinct (map fst new)
     \<and> fst ` set new \<inter> fst ` set (transactions b) = {}
     \<and> (\<exists>fn a. (ea, fn, a) \<in> set (get_descendants b')
           \<and> (fn = en @ ''.'' @ eon \<or> fn = en @ account_separator b @ eon))
     \<and> list_all2
         (\<lambda>(name, balance) (i, t). \<exists>account asset equity equity_value.
            lookup_by_full_name b' name = Some account
            \<and> tx_splits t = [asset, equity]
            \<and> split_account asset = Some account
            \<and> split_account equity = Some ea
            \<and> split_amount asset = balance
            \<and> equity_value
                = (if GetCommodity b' (Some account) = GetCommodity b' (Some ea)
                   then balance
                   else price_db b' balance (GetCommodity b' (Some account))
                          (GetCommodity b' (Some ea)) od)
            \<and> split_value asset = equity_value
            \<and> split_value equity = - equity_value
            \<and> split_value asset + split_value equity = 0)
         (filter (\<lambda>(name, balance). balance \<noteq> 0) balances) new"
proof -
  from synthesize_splits [of b balances od en eon descr cur] obtain b' ea new
    where run: "synthesize b balances od (JString en) (JString eon) (JString descr) (JString cur)
                  = Inr b'"
      and txs: "transactions b' = transactions b @ new"
      and dist: "distinct (map fst new)"
      and disj: "fst ` set new \<inter> fst ` set (transactions b) = {}"
      and ea: "\<exists>fn a. (ea, fn, a) \<in> set (get_descendants b')
                 \<and> (fn = en @ ''.'' @ eon \<or> fn = en @ account_separator b @ eon)"
      and all: "list_all2
         (\<lambda>(name, balance) (i, t). \<exists>account asset equity.
            lookup_by_full_name b' name = Some account
            \<and> tx_splits t = [asset, equity]
            \<and> split_account asset = Some account
            \<and> split_account equity = Some ea
            \<and> split_amount asset = balance
            \<and> split_value asset
                = (if GetCommodity b' (Some account) = GetCommodity b' (Some ea)
                   then balance
                   else price_db b' balance (GetCommodity b' (Some account))
                          (GetCommodity b' (Some ea)) od)
            \<and> split_amount equity = - split_value asset
            \<and> split_value equity = - split_value asset
            \<and> tx_description t = descr
            \<and> tx_currency t = lookup (commodity_table b) ''CURRENCY'' cur
            \<and> tx_date t = Some (dt_day od, dt_month od, dt_year od))
         (filter (\<lambda>(name, balance). balance \<noteq> 0) balances) new"
    by (elim exE conjE) (rule that; (assumption | blast))
  have shape: "list_all2
         (\<lambda>(name, balance) (i, t). \<exists>account asset equity equity_value.
            lookup_by_full_name b' name = Some account
            \<and> tx_splits t = [asset, equity]
            \<and> split_account asset = Some account
            \<and> split_account equity = Some ea
            \<and> split_amount asset = balance
            \<and> equity_value
                = (if GetCommodity b' (Some account) = GetCommodity b' (Some ea)
                   then balance
                   else price_db b' balance (GetCommodity b' (Some account))
                          (GetCommodity b' (Some ea)) od)
            \<and> split_value asset = equity_value
            \<and> split_value equity = - equity_value
            \<and> split_value asset + split_value equity = 0)
         (filter (\<lambda>(name, balance). balance \<noteq> 0) balances) new"
  proof (rule list_all2_mono [OF all])
    fix entry :: "string \<times> rat" and p :: "nat \<times> transaction"
    obtain name balance where entry: "entry = (name, balance)" by (cases entry)
    obtain i t where p: "p = (i, t)" by (cases p)
    assume "(\<lambda>(name, balance) (i, t). \<exists>account asset equity.
            lookup_by_full_name b' name = Some account
            \<and> tx_splits t = [asset, equity]
            \<and> split_account asset = Some account
            \<and> split_account equity = Some ea
            \<and> split_amount asset = balance
            \<and> split_value asset
                = (if GetCommodity b' (Some account) = GetCommodity b' (Some ea)
                   then balance
                   else price_db b' balance (GetCommodity b' (Some account))
                          (GetCommodity b' (Some ea)) od)
            \<and> split_amount equity = - split_value asset
            \<and> split_value equity = - split_value asset
            \<and> tx_description t = descr
            \<and> tx_currency t = lookup (commodity_table b) ''CURRENCY'' cur
            \<and> tx_date t = Some (dt_day od, dt_month od, dt_year od)) entry p"
    then obtain account asset equity
      where named: "lookup_by_full_name b' name = Some account"
        and splits: "tx_splits t = [asset, equity]"
        and on_asset: "split_account asset = Some account"
        and on_equity: "split_account equity = Some ea"
        and amount: "split_amount asset = balance"
        and asset_value: "split_value asset
                = (if GetCommodity b' (Some account) = GetCommodity b' (Some ea)
                   then balance
                   else price_db b' balance (GetCommodity b' (Some account))
                          (GetCommodity b' (Some ea)) od)"
        and equity_value: "split_value equity = - split_value asset"
      unfolding entry p prod.case by (elim exE conjE) (rule that; (assumption | blast))
    from equity_value have zero: "split_value asset + split_value equity = 0"
      by simp
    from named splits on_asset on_equity amount asset_value equity_value zero
    show "(\<lambda>(name, balance) (i, t). \<exists>account asset equity equity_value.
            lookup_by_full_name b' name = Some account
            \<and> tx_splits t = [asset, equity]
            \<and> split_account asset = Some account
            \<and> split_account equity = Some ea
            \<and> split_amount asset = balance
            \<and> equity_value
                = (if GetCommodity b' (Some account) = GetCommodity b' (Some ea)
                   then balance
                   else price_db b' balance (GetCommodity b' (Some account))
                          (GetCommodity b' (Some ea)) od)
            \<and> split_value asset = equity_value
            \<and> split_value equity = - equity_value
            \<and> split_value asset + split_value equity = 0) entry p"
      unfolding entry p prod.case
      by - (rule exI [where x = account], rule exI [where x = asset],
            rule exI [where x = equity], rule exI [where x = "split_value asset"],
            intro conjI; (assumption | rule refl))
  qed
  have count: "length new = length (filter (\<lambda>(name, balance). balance \<noteq> 0) balances)"
    using list_all2_lengthD [OF shape] by simp
  from run txs count dist disj ea shape show ?thesis
    by - (rule exI [where x = b'], rule exI [where x = ea], rule exI [where x = new],
          intro conjI; assumption)
qed

theorem synthesize_one_transaction_per_balance_witness:
  "synthesize ex_new_book ex_balances ex_date (JString ''Equity'') (JString ''Opening Balances'')
     (JString ''Opening balance'') (JString ''EUR'') = Inr ex_opening_book
   \<and> length (transactions ex_opening_book) = 2
   \<and> distinct (map fst (transactions ex_opening_book))
   \<and> (\<exists>ea. (\<exists>a. (ea, ''Equity.Opening Balances'', a) \<in> set (get_descendants ex_opening_book))
        \<and> list_all2
            (\<lambda>(name, balance) (i, t). \<exists>account asset equity equity_value.
               lookup_by_full_name ex_opening_book name = Some account
               \<and> tx_splits t = [asset, equity]
               \<and> split_account asset = Some account
               \<and> split_account equity = Some ea
               \<and> split_amount asset = balance
               \<and> equity_value
                   = (if GetCommodity ex_opening_book (Some account)
                          = GetCommodity ex_opening_book (Some ea)
                      then balance
                      else price_db ex_opening_book balance
                             (GetCommodity ex_opening_book (Some account))
                             (GetCommodity ex_opening_book (Some ea)) ex_date)
               \<and> split_value asset = equity_value
               \<and> split_value equity = - equity_value
               \<and> split_value asset + split_value equity = 0)
            [(''Assets.Checking'', 501), (''Assets.Cash'', 7)] (transactions ex_opening_book))"
proof -
  have entries: "filter (\<lambda>(name, balance). balance \<noteq> 0) ex_balances
                   = [(''Assets.Checking'', 501), (''Assets.Cash'', 7)]"
    by (simp add: ex_balances_def)
  have old: "transactions ex_new_book = []" and sep: "account_separator ex_new_book = ''.''"
    by (simp_all add: ex_new_book_def ex_book_def)
  from synthesize_one_transaction_per_balance [of ex_new_book ex_balances ex_date "''Equity''"
      "''Opening Balances''" "''Opening balance''" "''EUR''"]
  obtain b' ea new
    where run: "synthesize ex_new_book ex_balances ex_date (JString ''Equity'')
                  (JString ''Opening Balances'') (JString ''Opening balance'') (JString ''EUR'')
                  = Inr b'"
      and txs: "transactions b' = transactions ex_new_book @ new"
      and count: "length new = length (filter (\<lambda>(name, balance). balance \<noteq> 0) ex_balances)"
      and dist: "distinct (map fst new)"
      and ea: "\<exists>fn a. (ea, fn, a) \<in> set (get_descendants b')
                 \<and> (fn = ''Equity'' @ ''.'' @ ''Opening Balances''
                    \<or> fn = ''Equity'' @ account_separator ex_new_book @ ''Opening Balances'')"
      and all: "list_all2
         (\<lambda>(name, balance) (i, t). \<exists>account asset equity equity_value.
            lookup_by_full_name b' name = Some account
            \<and> tx_splits t = [asset, equity]
            \<and> split_account asset = Some account
            \<and> split_account equity = Some ea
            \<and> split_amount asset = balance
            \<and> equity_value
                = (if GetCommodity b' (Some account) = GetCommodity b' (Some ea)
                   then balance
                   else price_db b' balance (GetCommodity b' (Some account))
                          (GetCommodity b' (Some ea)) ex_date)
            \<and> split_value asset = equity_value
            \<and> split_value equity = - equity_value
            \<and> split_value asset + split_value equity = 0)
         (filter (\<lambda>(name, balance). balance \<noteq> 0) ex_balances) new"
    by (elim exE conjE) (rule that; (assumption | blast))
  from run have b': "b' = ex_opening_book"
    unfolding ex_synthesize by simp
  from txs have new: "new = transactions ex_opening_book"
    unfolding b' old by simp
  from ea have equity: "\<exists>a. (ea, ''Equity.Opening Balances'', a)
                              \<in> set (get_descendants ex_opening_book)"
    unfolding b' sep by auto
  from count have two: "length (transactions ex_opening_book) = 2"
    unfolding new entries by simp
  from equity all [unfolded b' new entries]
  have "\<exists>ea. (\<exists>a. (ea, ''Equity.Opening Balances'', a) \<in> set (get_descendants ex_opening_book))
        \<and> list_all2
            (\<lambda>(name, balance) (i, t). \<exists>account asset equity equity_value.
               lookup_by_full_name ex_opening_book name = Some account
               \<and> tx_splits t = [asset, equity]
               \<and> split_account asset = Some account
               \<and> split_account equity = Some ea
               \<and> split_amount asset = balance
               \<and> equity_value
                   = (if GetCommodity ex_opening_book (Some account)
                          = GetCommodity ex_opening_book (Some ea)
                      then balance
                      else price_db ex_opening_book balance
                             (GetCommodity ex_opening_book (Some account))
                             (GetCommodity ex_opening_book (Some ea)) ex_date)
               \<and> split_value asset = equity_value
               \<and> split_value equity = - equity_value
               \<and> split_value asset + split_value equity = 0)
            [(''Assets.Checking'', 501), (''Assets.Cash'', 7)] (transactions ex_opening_book)"
    by - (rule exI [where x = ea], intro conjI; assumption)
  with ex_synthesize two dist [unfolded new] show ?thesis
    by - (intro conjI; assumption)
qed

text \<open>
  C3. Every created transaction has its first split on the account that the lookup by full
  name finds in the resulting book under the name of its entry (the asset account) and its
  second split on the equity opening-balances account, an account whose full name is the
  equity name and the opening-balances name, joined by a dot or by the separator of the
  book. The equity value booked by it is the balance of the entry when the commodity of
  the asset account equals the commodity of the equity account, and otherwise what the
  price database of the book makes of the balance, from the asset commodity to the equity
  commodity at the opening date; the asset split carries it as value and the equity split
  carries it negated.
\<close>

theorem synthesize_equity_value:
  "\<exists>b' ea new.
     synthesize b balances od (JString en) (JString eon) (JString descr) (JString cur) = Inr b'
     \<and> transactions b' = transactions b @ new
     \<and> price_db b' = price_db b
     \<and> (\<exists>fn a. (ea, fn, a) \<in> set (get_descendants b')
           \<and> (fn = en @ ''.'' @ eon \<or> fn = en @ account_separator b @ eon))
     \<and> list_all2
         (\<lambda>(name, balance) (i, t). \<exists>account asset equity equity_value.
            lookup_by_full_name b' name = Some account
            \<and> tx_splits t = [asset, equity]
            \<and> split_account asset = Some account
            \<and> split_account equity = Some ea
            \<and> equity_value
                = (if GetCommodity b' (Some account) = GetCommodity b' (Some ea)
                   then balance
                   else price_db b' balance (GetCommodity b' (Some account))
                          (GetCommodity b' (Some ea)) od)
            \<and> split_value asset = equity_value
            \<and> split_value equity = - equity_value)
         (filter (\<lambda>(name, balance). balance \<noteq> 0) balances) new"
proof -
  from synthesize_splits [of b balances od en eon descr cur] obtain b' ea new
    where run: "synthesize b balances od (JString en) (JString eon) (JString descr) (JString cur)
                  = Inr b'"
      and txs: "transactions b' = transactions b @ new"
      and prices: "price_db b' = price_db b"
      and ea: "\<exists>fn a. (ea, fn, a) \<in> set (get_descendants b')
                 \<and> (fn = en @ ''.'' @ eon \<or> fn = en @ account_separator b @ eon)"
      and all: "list_all2
         (\<lambda>(name, balance) (i, t). \<exists>account asset equity.
            lookup_by_full_name b' name = Some account
            \<and> tx_splits t = [asset, equity]
            \<and> split_account asset = Some account
            \<and> split_account equity = Some ea
            \<and> split_amount asset = balance
            \<and> split_value asset
                = (if GetCommodity b' (Some account) = GetCommodity b' (Some ea)
                   then balance
                   else price_db b' balance (GetCommodity b' (Some account))
                          (GetCommodity b' (Some ea)) od)
            \<and> split_amount equity = - split_value asset
            \<and> split_value equity = - split_value asset
            \<and> tx_description t = descr
            \<and> tx_currency t = lookup (commodity_table b) ''CURRENCY'' cur
            \<and> tx_date t = Some (dt_day od, dt_month od, dt_year od))
         (filter (\<lambda>(name, balance). balance \<noteq> 0) balances) new"
    by (elim exE conjE) (rule that; (assumption | blast))
  have shape: "list_all2
         (\<lambda>(name, balance) (i, t). \<exists>account asset equity equity_value.
            lookup_by_full_name b' name = Some account
            \<and> tx_splits t = [asset, equity]
            \<and> split_account asset = Some account
            \<and> split_account equity = Some ea
            \<and> equity_value
                = (if GetCommodity b' (Some account) = GetCommodity b' (Some ea)
                   then balance
                   else price_db b' balance (GetCommodity b' (Some account))
                          (GetCommodity b' (Some ea)) od)
            \<and> split_value asset = equity_value
            \<and> split_value equity = - equity_value)
         (filter (\<lambda>(name, balance). balance \<noteq> 0) balances) new"
  proof (rule list_all2_mono [OF all])
    fix entry :: "string \<times> rat" and p :: "nat \<times> transaction"
    obtain name balance where entry: "entry = (name, balance)" by (cases entry)
    obtain i t where p: "p = (i, t)" by (cases p)
    assume "(\<lambda>(name, balance) (i, t). \<exists>account asset equity.
            lookup_by_full_name b' name = Some account
            \<and> tx_splits t = [asset, equity]
            \<and> split_account asset = Some account
            \<and> split_account equity = Some ea
            \<and> split_amount asset = balance
            \<and> split_value asset
                = (if GetCommodity b' (Some account) = GetCommodity b' (Some ea)
                   then balance
                   else price_db b' balance (GetCommodity b' (Some account))
                          (GetCommodity b' (Some ea)) od)
            \<and> split_amount equity = - split_value asset
            \<and> split_value equity = - split_value asset
            \<and> tx_description t = descr
            \<and> tx_currency t = lookup (commodity_table b) ''CURRENCY'' cur
            \<and> tx_date t = Some (dt_day od, dt_month od, dt_year od)) entry p"
    then obtain account asset equity
      where named: "lookup_by_full_name b' name = Some account"
        and splits: "tx_splits t = [asset, equity]"
        and on_asset: "split_account asset = Some account"
        and on_equity: "split_account equity = Some ea"
        and asset_value: "split_value asset
                = (if GetCommodity b' (Some account) = GetCommodity b' (Some ea)
                   then balance
                   else price_db b' balance (GetCommodity b' (Some account))
                          (GetCommodity b' (Some ea)) od)"
        and equity_value: "split_value equity = - split_value asset"
      unfolding entry p prod.case by (elim exE conjE) (rule that; (assumption | blast))
    from named splits on_asset on_equity asset_value equity_value
    show "(\<lambda>(name, balance) (i, t). \<exists>account asset equity equity_value.
            lookup_by_full_name b' name = Some account
            \<and> tx_splits t = [asset, equity]
            \<and> split_account asset = Some account
            \<and> split_account equity = Some ea
            \<and> equity_value
                = (if GetCommodity b' (Some account) = GetCommodity b' (Some ea)
                   then balance
                   else price_db b' balance (GetCommodity b' (Some account))
                          (GetCommodity b' (Some ea)) od)
            \<and> split_value asset = equity_value
            \<and> split_value equity = - equity_value) entry p"
      unfolding entry p prod.case
      by - (rule exI [where x = account], rule exI [where x = asset],
            rule exI [where x = equity], rule exI [where x = "split_value asset"],
            intro conjI; (assumption | rule refl))
  qed
  from run txs prices ea shape show ?thesis
    by - (rule exI [where x = b'], rule exI [where x = ea], rule exI [where x = new],
          intro conjI; assumption)
qed

theorem synthesize_equity_value_witness:
  "\<exists>ea. (\<exists>a. (ea, ''Equity.Opening Balances'', a) \<in> set (get_descendants ex_opening_book))
     \<and> list_all2
         (\<lambda>(name, balance) (i, t). \<exists>account asset equity equity_value.
            lookup_by_full_name ex_opening_book name = Some account
            \<and> tx_splits t = [asset, equity]
            \<and> split_account asset = Some account
            \<and> split_account equity = Some ea
            \<and> equity_value
                = (if GetCommodity ex_opening_book (Some account)
                       = GetCommodity ex_opening_book (Some ea)
                   then balance
                   else price_db ex_opening_book balance
                          (GetCommodity ex_opening_book (Some account))
                          (GetCommodity ex_opening_book (Some ea)) ex_date)
            \<and> split_value asset = equity_value
            \<and> split_value equity = - equity_value)
         [(''Assets.Checking'', 501), (''Assets.Cash'', 7)] (transactions ex_opening_book)"
proof -
  have entries: "filter (\<lambda>(name, balance). balance \<noteq> 0) ex_balances
                   = [(''Assets.Checking'', 501), (''Assets.Cash'', 7)]"
    by (simp add: ex_balances_def)
  have old: "transactions ex_new_book = []" and sep: "account_separator ex_new_book = ''.''"
    by (simp_all add: ex_new_book_def ex_book_def)
  from synthesize_equity_value [of ex_new_book ex_balances ex_date "''Equity''"
      "''Opening Balances''" "''Opening balance''" "''EUR''"]
  obtain b' ea new
    where run: "synthesize ex_new_book ex_balances ex_date (JString ''Equity'')
                  (JString ''Opening Balances'') (JString ''Opening balance'') (JString ''EUR'')
                  = Inr b'"
      and txs: "transactions b' = transactions ex_new_book @ new"
      and ea: "\<exists>fn a. (ea, fn, a) \<in> set (get_descendants b')
                 \<and> (fn = ''Equity'' @ ''.'' @ ''Opening Balances''
                    \<or> fn = ''Equity'' @ account_separator ex_new_book @ ''Opening Balances'')"
      and all: "list_all2
         (\<lambda>(name, balance) (i, t). \<exists>account asset equity equity_value.
            lookup_by_full_name b' name = Some account
            \<and> tx_splits t = [asset, equity]
            \<and> split_account asset = Some account
            \<and> split_account equity = Some ea
            \<and> equity_value
                = (if GetCommodity b' (Some account) = GetCommodity b' (Some ea)
                   then balance
                   else price_db b' balance (GetCommodity b' (Some account))
                          (GetCommodity b' (Some ea)) ex_date)
            \<and> split_value asset = equity_value
            \<and> split_value equity = - equity_value)
         (filter (\<lambda>(name, balance). balance \<noteq> 0) ex_balances) new"
    by (elim exE conjE) (rule that; (assumption | blast))
  from run have b': "b' = ex_opening_book"
    unfolding ex_synthesize by simp
  from txs have new: "new = transactions ex_opening_book"
    unfolding b' old by simp
  from ea have equity: "\<exists>a. (ea, ''Equity.Opening Balances'', a)
                              \<in> set (get_descendants ex_opening_book)"
    unfolding b' sep by auto
  from equity all [unfolded b' new entries] show ?thesis
    by - (rule exI [where x = ea], intro conjI; assumption)
qed

text \<open>
  C7. In every created transaction the first split is on the account that the lookup by
  full name finds in the resulting book under the name of the entry, and the second on the
  equity opening-balances account. The amount of
  the asset split is the balance of the entry and its value is the equity value computed
  from the commodities of the two accounts (the transaction currency, which is looked up
  from the configured currency, plays no part in it); amount and value of the equity split
  are both the negated equity value.
\<close>

theorem synthesize_split_amounts:
  "\<exists>b' ea new.
     synthesize b balances od (JString en) (JString eon) (JString descr) (JString cur) = Inr b'
     \<and> transactions b' = transactions b @ new
     \<and> (\<exists>fn a. (ea, fn, a) \<in> set (get_descendants b')
           \<and> (fn = en @ ''.'' @ eon \<or> fn = en @ account_separator b @ eon))
     \<and> list_all2
         (\<lambda>(name, balance) (i, t). \<exists>account asset equity equity_value.
            lookup_by_full_name b' name = Some account
            \<and> tx_splits t = [asset, equity]
            \<and> split_account asset = Some account
            \<and> split_account equity = Some ea
            \<and> equity_value
                = (if GetCommodity b' (Some account) = GetCommodity b' (Some ea)
                   then balance
                   else price_db b' balance (GetCommodity b' (Some account))
                          (GetCommodity b' (Some ea)) od)
            \<and> split_amount asset = balance
            \<and> split_value asset = equity_value
            \<and> split_amount equity = - equity_value
            \<and> split_value equity = - equity_value
            \<and> tx_currency t = lookup (commodity_table b) ''CURRENCY'' cur)
         (filter (\<lambda>(name, balance). balance \<noteq> 0) balances) new"
proof -
  from synthesize_splits [of b balances od en eon descr cur] obtain b' ea new
    where run: "synthesize b balances od (JString en) (JString eon) (JString descr) (JString cur)
                  = Inr b'"
      and txs: "transactions b' = transactions b @ new"
      and ea: "\<exists>fn a. (ea, fn, a) \<in> set (get_descendants b')
                 \<and> (fn = en @ ''.'' @ eon \<or> fn = en @ account_separator b @ eon)"
      and all: "list_all2
         (\<lambda>(name, balance) (i, t). \<exists>account asset equity.
            lookup_by_full_name b' name = Some account
            \<and> tx_splits t = [asset, equity]
            \<and> split_account asset = Some account
            \<and> split_account equity = Some ea
            \<and> split_amount asset = balance
            \<and> split_value asset
                = (if GetCommodity b' (Some account) = GetCommodity b' (Some ea)
                   then balance
                   else price_db b' balance (GetCommodity b' (Some account))
                          (GetCommodity b' (Some ea)) od)
            \<and> split_amount equity = - split_value asset
            \<and> split_value equity = - split_value asset
            \<and> tx_description t = descr
            \<and> tx_currency t = lookup (commodity_table b) ''CURRENCY'' cur
            \<and> tx_date t = Some (dt_day od, dt_month od, dt_year od))
         (filter (\<lambda>(name, balance). balance \<noteq> 0) balances) new"
    by (elim exE conjE) (rule that; (assumption | blast))
  have shape: "list_all2
         (\<lambda>(name, balance) (i, t). \<exists>account asset equity equity_value.
            lookup_by_full_name b' name = Some account
            \<and> tx_splits t = [asset, equity]
            \<and> split_account asset = Some account
            \<and> split_account equity = Some ea
            \<and> equity_value
                = (if GetCommodity b' (Some account) = GetCommodity b' (Some ea)
                   then balance
                   else price_db b' balance (GetCommodity b' (Some account))
                          (GetCommodity b' (Some ea)) od)
            \<and> split_amount asset = balance
            \<and> split_value asset = equity_value
            \<and> split_amount equity = - equity_value
            \<and> split_value equity = - equity_value
            \<and> tx_currency t = lookup (commodity_table b) ''CURRENCY'' cur)
         (filter (\<lambda>(name, balance). balance \<noteq> 0) balances) new"
  proof (rule list_all2_mono [OF all])
    fix entry :: "string \<times> rat" and p :: "nat \<times> transaction"
    obtain name balance where entry: "entry = (name, balance)" by (cases entry)
    obtain i t where p: "p = (i, t)" by (cases p)
    assume "(\<lambda>(name, balance) (i, t). \<exists>account asset equity.
            lookup_by_full_name b' name = Some account
            \<and> tx_splits t = [asset, equity]
            \<and> split_account asset = Some account
            \<and> split_account equity = Some ea
            \<and> split_amount asset = balance
            \<and> split_value asset
                = (if GetCommodity b' (Some account) = GetCommodity b' (Some ea)
                   then balance
                   else price_db b' balance (GetCommodity b' (Some account))
                          (GetCommodity b' (Some ea)) od)
            \<and> split_amount equity = - split_value asset
            \<and> split_value equity = - split_value asset
            \<and> tx_description t = descr
            \<and> tx_currency t = lookup (commodity_table b) ''CURRENCY'' cur
            \<and> tx_date t = Some (dt_day od, dt_month od, dt_year od)) entry p"
    then obtain account asset equity
      where named: "lookup_by_full_name b' name = Some account"
        and splits: "tx_splits t = [asset, equity]"
        and on_asset: "split_account asset = Some account"
        and on_equity: "split_account equity = Some ea"
        and amount: "split_amount asset = balance"
        and asset_value: "split_value asset
                = (if GetCommodity b' (Some account) = GetCommodity b' (Some ea)
                   then balance
                   else price_db b' balance (GetCommodity b' (Some account))
                          (GetCommodity b' (Some ea)) od)"
        and equity_amount: "split_amount equity = - split_value asset"
        and equity_value: "split_value equity = - split_value asset"
        and currency: "tx_currency t = lookup (commodity_table b) ''CURRENCY'' cur"
      unfolding entry p prod.case by (elim exE conjE) (rule that; (assumption | blast))
    from named splits on_asset on_equity asset_value amount equity_amount equity_value
      currency
    show "(\<lambda>(name, balance) (i, t). \<exists>account asset equity equity_value.
            lookup_by_full_name b' name = Some account
            \<and> tx_splits t = [asset, equity]
            \<and> split_account asset = Some account
            \<and> split_account equity = Some ea
            \<and> equity_value
                = (if GetCommodity b' (Some account) = GetCommodity b' (Some ea)
                   then balance
                   else price_db b' balance (GetCommodity b' (Some account))
                          (GetCommodity b' (Some ea)) od)
            \<and> split_amount asset = balance
            \<and> split_value asset = equity_value
            \<and> split_amount equity = - equity_value
            \<and> split_value equity = - equity_value
            \<and> tx_currency t = lookup (commodity_table b) ''CURRENCY'' cur) entry p"
      unfolding entry p prod.case
      by - (rule exI [where x = account], rule exI [where x = asset],
            rule exI [where x = equity], rule exI [where x = "split_value asset"],
            intro conjI; (assumption | rule refl))
  qed
  from run txs ea shape show ?thesis
    by - (rule exI [where x = b'], rule exI [where x = ea], rule exI [where x = new],
          intro conjI; assumption)
qed

theorem synthesize_split_amounts_witness:
  "\<exists>ea. (\<exists>a. (ea, ''Equity.Opening Balances'', a) \<in> set (get_descendants ex_opening_book))
     \<and> list_all2
         (\<lambda>(name, balance) (i, t). \<exists>account asset equity equity_value.
            lookup_by_full_name ex_opening_book name = Some account
            \<and> tx_splits t = [asset, equity]
            \<and> split_account asset = Some account
            \<and> split_account equity = Some ea
            \<and> equity_value
                = (if GetCommodity ex_opening_book (Some account)
                       = GetCommodity ex_opening_book (Some ea)
                   then balance
                   else price_db ex_opening_book balance
                          (GetCommodity ex_opening_book (Some account))
                          (GetCommodity ex_opening_book (Some ea)) ex_date)
            \<and> split_amount asset = balance
            \<and> split_value asset = equity_value
            \<and> split_amount equity = - equity_value
            \<and> split_value equity = - equity_value
            \<and> tx_currency t = lookup (commodity_table ex_new_book) ''CURRENCY'' ''EUR'')
         [(''Assets.Checking'', 501), (''Assets.Cash'', 7)] (transactions ex_opening_book)"
proof -
  have entries: "filter (\<lambda>(name, balance). balance \<noteq> 0) ex_balances
                   = [(''Assets.Checking'', 501), (''Assets.Cash'', 7)]"
    by (simp add: ex_balances_def)
  have old: "transactions ex_new_book = []" and sep: "account_separator ex_new_book = ''.''"
    by (simp_all add: ex_new_book_def ex_book_def)
  from synthesize_split_amounts [of ex_new_book ex_balances ex_date "''Equity''"
      "''Opening Balances''" "''Opening balance''" "''EUR''"]
  obtain b' ea new
    where run: "synthesize ex_new_book ex_balances ex_date (JString ''Equity'')
                  (JString ''Opening Balances'') (JString ''Opening balance'') (JString ''EUR'')
                  = Inr b'"
      and txs: "transactions b' = transactions ex_new_book @ new"
      and ea: "\<exists>fn a. (ea, fn, a) \<in> set (get_descendants b')
                 \<and> (fn = ''Equity'' @ ''.'' @ ''Opening Balances''
                    \<or> fn = ''Equity'' @ account_separator ex_new_book @ ''Opening Balances'')"
      and all: "list_all2
         (\<lambda>(name, balance) (i, t). \<exists>account asset equity equity_value.
            lookup_by_full_name b' name = Some account
            \<and> tx_splits t = [asset, equity]
            \<and> split_account asset = Some account
            \<and> split_account equity = Some ea
            \<and> equity_value
                = (if GetCommodity b' (Some account) = GetCommodity b' (Some ea)
                   then balance
                   else price_db b' balance (GetCommodity b' (Some account))
                          (GetCommodity b' (Some ea)) ex_date)
            \<and> split_amount asset = balance
            \<and> split_value asset = equity_value
            \<and> split_amount equity = - equity_value
            \<and> split_value equity = - equity_value
            \<and> tx_currency t = lookup (commodity_table ex_new_book) ''CURRENCY'' ''EUR'')
         (filter (\<lambda>(name, balance). balance \<noteq> 0) ex_balances) new"
    by (elim exE conjE) (rule that; (assumption | blast))
  from run have b': "b' = ex_opening_book"
    unfolding ex_synthesize by simp
  from txs have new: "new = transactions ex_opening_book"
    unfolding b' old by simp
  from ea have equity: "\<exists>a. (ea, ''Equity.Opening Balances'', a)
                              \<in> set (get_descendants ex_opening_book)"
    unfolding b' sep by auto
  from equity all [unfolded b' new entries] show ?thesis
    by - (rule exI [where x = ea], intro conjI; assumption)
qed

text \<open>
  C10. The lookup of the equity placeholder account and of the opening-balances account
  decides alone whether an account is created: an account found under the name is taken as
  it is, whatever its type, placeholder flag and commodity, and the book is left as it was
  by that step. Through the whole synthesis every account that was in the book keeps its
  name, type, placeholder flag and commodity.
\<close>

theorem existing_equity_accounts_reused:
  "\<exists>ep ea b'.
     equity_accounts (JString en) (JString eon) (JString cur) b
       = Inr (lookup (commodity_table b) ''CURRENCY'' cur, ep, ea, b')
     \<and> (\<forall>r. lookup_by_full_name b en = Some r \<longrightarrow> ep = r
           \<and> (\<forall>r'. lookup_by_full_name b (en @ ''.'' @ eon) = Some r' \<longrightarrow> ea = r' \<and> b' = b))
     \<and> (lookup_by_full_name b en = None \<longrightarrow>
          (\<forall>r'. lookup_by_full_name
                  (snd (append_child []
                     (SetPlaceholder True (SetType ACCT_TYPE_EQUITY (SetName en new_Account))) b))
                  (en @ ''.'' @ eon) = Some r' \<longrightarrow>
             ea = r'
             \<and> b' = snd (append_child []
                     (SetPlaceholder True (SetType ACCT_TYPE_EQUITY (SetName en new_Account)))
                     b)))
     \<and> (\<forall>r a. account_at (root_account b) r = Some a \<longrightarrow>
          (\<exists>a'. account_at (root_account b') r = Some a'
             \<and> acc_name a' = acc_name a \<and> acc_type a' = acc_type a
             \<and> acc_placeholder a' = acc_placeholder a \<and> acc_commodity a' = acc_commodity a))
     \<and> (\<exists>b''. synthesize b balances od (JString en) (JString eon) (JString descr) (JString cur)
                 = Inr b''
          \<and> (\<forall>r a. account_at (root_account b) r = Some a \<longrightarrow>
                (\<exists>a'. account_at (root_account b'') r = Some a'
                   \<and> acc_name a' = acc_name a \<and> acc_type a' = acc_type a
                   \<and> acc_placeholder a' = acc_placeholder a
                   \<and> acc_commodity a' = acc_commodity a)))"
proof -
  let ?ph = "SetPlaceholder True (SetType ACCT_TYPE_EQUITY (SetName en new_Account))"
  from equity_accounts_result [of en eon cur b] obtain ep ea t1
    where eq: "equity_accounts (JString en) (JString eon) (JString cur) b
                 = Inr (lookup (commodity_table b) ''CURRENCY'' cur, ep, ea, b\<lparr>root_account := t1\<rparr>)"
      and ext1: "extends t1 (root_account b)"
      and found: "\<forall>r. lookup_by_full_name b en = Some r \<longrightarrow> ep = r
           \<and> (\<forall>r'. lookup_by_full_name b (en @ ''.'' @ eon) = Some r' \<longrightarrow>
                 ea = r' \<and> t1 = root_account b)"
      and created: "lookup_by_full_name b en = None \<longrightarrow>
          (\<forall>r'. lookup_by_full_name (snd (append_child [] ?ph b)) (en @ ''.'' @ eon) = Some r'
             \<longrightarrow> ea = r' \<and> b\<lparr>root_account := t1\<rparr> = snd (append_child [] ?ph b))"
    by (elim exE conjE) (rule that; blast)
  define b' where "b' = b\<lparr>root_account := t1\<rparr>"
  have found': "\<forall>r. lookup_by_full_name b en = Some r \<longrightarrow> ep = r
           \<and> (\<forall>r'. lookup_by_full_name b (en @ ''.'' @ eon) = Some r' \<longrightarrow> ea = r' \<and> b' = b)"
    using found unfolding b'_def by auto
  have attrs1: "\<forall>r a. account_at (root_account b) r = Some a \<longrightarrow>
          (\<exists>a'. account_at (root_account b') r = Some a'
             \<and> acc_name a' = acc_name a \<and> acc_type a' = acc_type a
             \<and> acc_placeholder a' = acc_placeholder a \<and> acc_commodity a' = acc_commodity a)"
    using ext1 unfolding b'_def extends_def same_attributes_def by simp
  from synthesize_result [of b balances od en eon descr cur] obtain tree' new
    where run: "synthesize b balances od (JString en) (JString eon) (JString descr) (JString cur)
                  = Inr (b\<lparr>root_account := tree', transactions := transactions b @ new\<rparr>)"
      and ext: "extends tree' (root_account b)"
    by (elim exE conjE) (rule that; blast)
  define b'' where "b'' = b\<lparr>root_account := tree', transactions := transactions b @ new\<rparr>"
  have attrs2: "\<forall>r a. account_at (root_account b) r = Some a \<longrightarrow>
                (\<exists>a'. account_at (root_account b'') r = Some a'
                   \<and> acc_name a' = acc_name a \<and> acc_type a' = acc_type a
                   \<and> acc_placeholder a' = acc_placeholder a
                   \<and> acc_commodity a' = acc_commodity a)"
    using ext unfolding b''_def extends_def same_attributes_def by simp
  from run attrs2 have whole: "\<exists>b''.
      synthesize b balances od (JString en) (JString eon) (JString descr) (JString cur) = Inr b''
      \<and> (\<forall>r a. account_at (root_account b) r = Some a \<longrightarrow>
            (\<exists>a'. account_at (root_account b'') r = Some a'
               \<and> acc_name a' = acc_name a \<and> acc_type a' = acc_type a
               \<and> acc_placeholder a' = acc_placeholder a
               \<and> acc_commodity a' = acc_commodity a))"
    unfolding b''_def [symmetric] by (rule_tac x = b'' in exI) simp
  from eq [folded b'_def] found' created [folded b'_def] attrs1 whole show ?thesis
    by - (rule exI [where x = ep], rule exI [where x = ea], rule exI [where x = b'],
          intro conjI; assumption)
qed

lemma ex_lookup_assets:
  "lookup_by_full_name ex_new_book ''Assets'' = Some [0]"
  "lookup_by_full_name ex_new_book ''Assets.Checking'' = Some [0, 0]"
  by (simp_all add: lookup_by_full_name_def get_descendants_def walk_book_def ex_new_book_def
      ex_book_def ex_root_def child_full_name_def)

theorem existing_equity_accounts_reused_witness:
  "lookup_by_full_name ex_new_book ''Assets'' = Some [0]
   \<and> lookup_by_full_name ex_new_book (''Assets'' @ ''.'' @ ''Checking'') = Some [0, 0]
   \<and> equity_accounts (JString ''Assets'') (JString ''Checking'') (JString ''EUR'') ex_new_book
       = Inr (Some EUR, [0], [0, 0], ex_new_book)"
proof -
  have currency: "lookup (commodity_table ex_new_book) ''CURRENCY'' ''EUR'' = Some EUR"
    by (simp add: lookup_def ex_new_book_def ex_book_def EUR_def USD_def)
  have second: "lookup_by_full_name ex_new_book (''Assets'' @ ''.'' @ ''Checking'') = Some [0, 0]"
    using ex_lookup_assets(2) by simp
  from existing_equity_accounts_reused [of "''Assets''" "''Checking''" "''EUR''" ex_new_book
      "[]" ex_date "''Opening balance''"]
  obtain ep ea b'
    where run: "equity_accounts (JString ''Assets'') (JString ''Checking'') (JString ''EUR'')
                  ex_new_book
                  = Inr (lookup (commodity_table ex_new_book) ''CURRENCY'' ''EUR'', ep, ea, b')"
      and found: "\<forall>r. lookup_by_full_name ex_new_book ''Assets'' = Some r \<longrightarrow> ep = r
           \<and> (\<forall>r'. lookup_by_full_name ex_new_book (''Assets'' @ ''.'' @ ''Checking'') = Some r'
                 \<longrightarrow> ea = r' \<and> b' = ex_new_book)"
    by (elim exE conjE) (rule that; blast)
  from found ex_lookup_assets(1) second have "ep = [0]" "ea = [0, 0]" "b' = ex_new_book"
    by blast+
  with run currency ex_lookup_assets(1) second show ?thesis
    by simp
qed

section \<open>Run: sessions\<close>










end
